theory Spec2Isabelle
  imports Main "HOL-Library.Multiset" "HOL-Library.AList"
begin

section \<open>Python strings\<close>

text \<open>
  A Python \<^verbatim>\<open>str\<close> is a sequence of Unicode code points, so it is modelled as the list
  of the code points \<^verbatim>\<open>ord(c)\<close> of its characters. \<open>ascii\<close> reads an ASCII literal; text
  beyond ASCII is written as the list of its code points.
\<close>

type_synonym pychar = int
type_synonym pystr = "pychar list"

definition ascii :: "string \<Rightarrow> pystr" where
  "ascii s = map of_char s"

text \<open>
  \<^verbatim>\<open>str.isspace\<close> on one character: the code points for which CPython's
  \<^verbatim>\<open>Py_UNICODE_ISSPACE\<close> holds. Both \<^verbatim>\<open>str.strip()\<close> and the class \<^verbatim>\<open>\s\<close> of a
  \<^verbatim>\<open>str\<close> pattern use it.
\<close>

definition isspace :: "pychar \<Rightarrow> bool" where
  "isspace c \<longleftrightarrow>
     (9 \<le> c \<and> c \<le> 13) \<or> (28 \<le> c \<and> c \<le> 32) \<or> c = 133 \<or> c = 160 \<or> c = 5760 \<or>
     (8192 \<le> c \<and> c \<le> 8202) \<or> c = 8232 \<or> c = 8233 \<or> c = 8239 \<or> c = 8287 \<or>
     c = 12288"

text \<open>\<^verbatim>\<open>s.strip()\<close>: leading and trailing whitespace removed.\<close>

definition strip :: "pystr \<Rightarrow> pystr" where
  "strip s = rev (dropWhile isspace (rev (dropWhile isspace s)))"

text \<open>\<^verbatim>\<open>sep.join(parts)\<close>.\<close>

fun join :: "pystr \<Rightarrow> pystr list \<Rightarrow> pystr" where
  "join sep [] = []"
| "join sep [p] = p"
| "join sep (p # q # ps) = p @ sep @ join sep (q # ps)"

section \<open>The regular expression of the fence-stripping step\<close>

text \<open>
  The fragment of \<^verbatim>\<open>re\<close> that the pattern \<^verbatim>\<open>```json\s*|\s*```\<close> uses: a literal, the
  greedy \<^verbatim>\<open>\s*\<close>, concatenation and alternation. \<open>rmatch r s\<close> lists the remainders
  of \<open>s\<close> after every way \<open>r\<close> can match a prefix of \<open>s\<close>, in the order in which a
  backtracking matcher tries them: the left alternative before the right one, the
  longest run of whitespace before the shorter ones. The match that \<^verbatim>\<open>re\<close> reports at a
  position is the first of the list.
\<close>

datatype regex = Lit pystr | SpaceStar | Seq regex regex | Alt regex regex

fun space_star :: "pystr \<Rightarrow> pystr list" where
  "space_star [] = [[]]"
| "space_star (c # cs) = (if isspace c then space_star cs @ [c # cs] else [c # cs])"

fun rmatch :: "regex \<Rightarrow> pystr \<Rightarrow> pystr list" where
  "rmatch (Lit l) s = (if take (length l) s = l then [drop (length l) s] else [])"
| "rmatch SpaceStar s = space_star s"
| "rmatch (Seq a b) s = concat (map (rmatch b) (rmatch a s))"
| "rmatch (Alt a b) s = rmatch a s @ rmatch b s"

text \<open>
  \<^verbatim>\<open>re.sub(pattern, '', s)\<close>: scanning from the left, the leftmost match at each position
  is deleted and the scan goes on behind it; where the pattern does not match, the
  character is kept. (A match of the empty string deletes nothing, and the character
  is kept.)
\<close>

function re_sub_empty :: "regex \<Rightarrow> pystr \<Rightarrow> pystr" where
  "re_sub_empty r [] = []"
| "re_sub_empty r (c # cs) =
     (case rmatch r (c # cs) of
        [] \<Rightarrow> c # re_sub_empty r cs
      | rest # _ \<Rightarrow>
          if length rest < length (c # cs) then re_sub_empty r rest
          else c # re_sub_empty r cs)"
  by pat_completeness auto
termination
  by (relation "measure (\<lambda>(r, s). length s)") auto

text \<open>The pattern \<^verbatim>\<open>r'```json\s*|\s*```'\<close> of both call sites.\<close>

definition fence_re :: regex where
  "fence_re =
     Alt (Seq (Lit (ascii ''```json'')) SpaceStar) (Seq SpaceStar (Lit (ascii ''```'')))"

text \<open>
  \<^verbatim>\<open>clean_text = re.sub(r'```json\s*|\s*```', '', response.text).strip()\<close>
\<close>

definition clean_text :: "pystr \<Rightarrow> pystr" where
  "clean_text t = strip (re_sub_empty fence_re t)"

section \<open>Exceptions\<close>

text \<open>
  The exception classes that occur. Every class here is a subclass of \<^verbatim>\<open>Exception\<close>, so
  \<^verbatim>\<open>except Exception\<close> catches each of them. \<^verbatim>\<open>json.JSONDecodeError\<close> and
  \<^verbatim>\<open>UnicodeEncodeError\<close> are subclasses of \<^verbatim>\<open>ValueError\<close>; \<open>OtherException\<close> stands for any
  further subclass of \<^verbatim>\<open>Exception\<close> (a network error of the client library, an
  \<^verbatim>\<open>IndexError\<close>, ...).
\<close>

datatype exn =
  ValueError | JSONDecodeError | UnicodeEncodeError | AttributeError | KeyError | TypeError
  | RecursionError | OtherException

text \<open>\<^verbatim>\<open>isinstance(e, ValueError)\<close>: what \<^verbatim>\<open>except ValueError\<close> catches.\<close>

definition isinstance_ValueError :: "exn \<Rightarrow> bool" where
  "isinstance_ValueError e \<longleftrightarrow>
     e = ValueError \<or> e = JSONDecodeError \<or> e = UnicodeEncodeError"

text \<open>A call either returns a value or lets an exception escape.\<close>

datatype 'a outcome = Returned 'a | Raised exn

section \<open>JSON values and \<^verbatim>\<open>json.loads\<close>\<close>

text \<open>
  The Python values that \<^verbatim>\<open>json.loads\<close> produces and that the service returns:
  \<^verbatim>\<open>None\<close>, \<^verbatim>\<open>bool\<close>, \<^verbatim>\<open>int\<close>, \<^verbatim>\<open>float\<close> (kept as the text of the literal), \<^verbatim>\<open>str\<close>,
  \<^verbatim>\<open>list\<close> and \<^verbatim>\<open>dict\<close>. A \<^verbatim>\<open>dict\<close> is an association list in insertion order with
  distinct keys.
\<close>

datatype json =
  JNull | JBool bool | JInt int | JFloat pystr | JString pystr | JArray "json list"
  | JObject "(pystr \<times> json) list"

text \<open>
  \<^verbatim>\<open>dict(pairs)\<close>: a later pair with the same key replaces the value and keeps the
  position of the first.
\<close>

definition py_dict :: "(pystr \<times> json) list \<Rightarrow> (pystr \<times> json) list" where
  "py_dict pairs = foldl (\<lambda>d (k, v). AList.update k v d) [] pairs"

text \<open>
  The decoder follows \<^verbatim>\<open>json/decoder.py\<close> and \<^verbatim>\<open>json/scanner.py\<close> of the standard
  library, on the remaining text instead of an index into it. Whitespace between
  tokens is \<^verbatim>\<open>[ \t\n\r]*\<close>.
\<close>

definition json_ws :: "pychar \<Rightarrow> bool" where
  "json_ws c \<longleftrightarrow> c = 32 \<or> c = 9 \<or> c = 10 \<or> c = 13"

definition skip_ws :: "pystr \<Rightarrow> pystr" where
  "skip_ws s = dropWhile json_ws s"

definition isdigit :: "pychar \<Rightarrow> bool" where
  "isdigit c \<longleftrightarrow> 48 \<le> c \<and> c \<le> 57"

definition hexval :: "pychar \<Rightarrow> int option" where
  "hexval c =
     (if 48 \<le> c \<and> c \<le> 57 then Some (c - 48)
      else if 65 \<le> c \<and> c \<le> 70 then Some (c - 55)
      else if 97 \<le> c \<and> c \<le> 102 then Some (c - 87)
      else None)"

text \<open>\<^verbatim>\<open>_decode_uXXXX\<close>: the four hexadecimal digits behind \<^verbatim>\<open>\u\<close>.\<close>

definition decode_uXXXX :: "pystr \<Rightarrow> int option" where
  "decode_uXXXX s =
     (case s of
        a # b # c # d # _ \<Rightarrow>
          (case (hexval a, hexval b, hexval c, hexval d) of
             (Some x, Some y, Some z, Some w) \<Rightarrow> Some (((x * 16 + y) * 16 + z) * 16 + w)
           | _ \<Rightarrow> None)
      | _ \<Rightarrow> None)"

text \<open>The table \<^verbatim>\<open>BACKSLASH\<close> of one-character escapes.\<close>

definition backslash :: "pychar \<Rightarrow> pychar option" where
  "backslash c =
     (if c = 34 then Some 34 else if c = 92 then Some 92 else if c = 47 then Some 47
      else if c = 98 then Some 8 else if c = 102 then Some 12 else if c = 110 then Some 10
      else if c = 114 then Some 13 else if c = 116 then Some 9 else None)"

definition push :: "pychar \<Rightarrow> exn + (pystr \<times> pystr) \<Rightarrow> exn + (pystr \<times> pystr)" where
  "push c r = (case r of Inl e \<Rightarrow> Inl e | Inr (str, rest) \<Rightarrow> Inr (c # str, rest))"

text \<open>
  \<^verbatim>\<open>scanstring\<close> in strict mode, started behind the opening quote: the decoded string
  and the text behind the closing quote.
\<close>

function scanstring :: "pystr \<Rightarrow> exn + (pystr \<times> pystr)" where
  "scanstring [] = Inl JSONDecodeError"
| "scanstring (c # cs) =
     (if c = 34 then Inr ([], cs)
      else if c = 92 then
        (case cs of
           [] \<Rightarrow> Inl JSONDecodeError
         | esc # r \<Rightarrow>
             if esc = 117 then
               (case decode_uXXXX r of
                  None \<Rightarrow> Inl JSONDecodeError
                | Some uni \<Rightarrow>
                    if 55296 \<le> uni \<and> uni \<le> 56319 \<and> take 2 (drop 4 r) = [92, 117] then
                      (case decode_uXXXX (drop 6 r) of
                         None \<Rightarrow> Inl JSONDecodeError
                       | Some uni2 \<Rightarrow>
                           if 56320 \<le> uni2 \<and> uni2 \<le> 57343
                           then push (65536 + (uni - 55296) * 1024 + (uni2 - 56320))
                                  (scanstring (drop 10 r))
                           else push uni (scanstring (drop 4 r)))
                    else push uni (scanstring (drop 4 r)))
             else
               (case backslash esc of
                  None \<Rightarrow> Inl JSONDecodeError
                | Some ch \<Rightarrow> push ch (scanstring r)))
      else if c < 32 then Inl JSONDecodeError
      else push c (scanstring cs))"
  by pat_completeness auto
termination
  by (relation "measure length") auto

text \<open>
  \<^verbatim>\<open>NUMBER_RE\<close>, \<^verbatim>\<open>(-?(?:0|[1-9][0-9]*))(\.[0-9]+)?([eE][-+]?[0-9]+)?\<close>. Each of the three
  groups is given as the text it matches at the front of its argument, the empty text
  where it does not match.
\<close>

definition match_integer :: "pystr \<Rightarrow> pystr" where
  "match_integer s =
     (let sign = (case s of [] \<Rightarrow> [] | c # _ \<Rightarrow> if c = 45 then [c] else [])
      in case drop (length sign) s of
           [] \<Rightarrow> []
         | d # r \<Rightarrow>
             if \<not> isdigit d then []
             else if d = 48 then sign @ [d]
             else sign @ d # takeWhile isdigit r)"

definition match_frac :: "pystr \<Rightarrow> pystr" where
  "match_frac s =
     (case s of
        [] \<Rightarrow> []
      | p # r \<Rightarrow> if p = 46 \<and> takeWhile isdigit r \<noteq> [] then p # takeWhile isdigit r else [])"

definition match_exp :: "pystr \<Rightarrow> pystr" where
  "match_exp s =
     (case s of
        [] \<Rightarrow> []
      | e # r \<Rightarrow>
          if e = 101 \<or> e = 69 then
            (let sign = (case r of [] \<Rightarrow> [] | g # _ \<Rightarrow> if g = 45 \<or> g = 43 then [g] else []);
                 ds = takeWhile isdigit (drop (length sign) r)
             in if ds = [] then [] else e # sign @ ds)
          else [])"

text \<open>\<^verbatim>\<open>int(integer)\<close> for the text of the first group.\<close>

definition digits_int :: "pystr \<Rightarrow> int" where
  "digits_int ds = foldl (\<lambda>a c. 10 * a + (c - 48)) 0 ds"

definition parse_int :: "pystr \<Rightarrow> int" where
  "parse_int s =
     (case s of [] \<Rightarrow> 0 | c # r \<Rightarrow> if c = 45 then - digits_int r else digits_int s)"

text \<open>
  \<^verbatim>\<open>match_number\<close> and what \<^verbatim>\<open>scan_once\<close> makes of the groups: the value and the text
  behind the match, or \<open>None\<close> where the pattern does not match.
\<close>

definition match_number :: "pystr \<Rightarrow> (json \<times> pystr) option" where
  "match_number s =
     (let integer = match_integer s
      in if integer = [] then None
         else
           let s2 = drop (length integer) s;
               frac = match_frac s2;
               s3 = drop (length frac) s2;
               ex = match_exp s3;
               s4 = drop (length ex) s3
           in if frac = [] \<and> ex = [] then Some (JInt (parse_int integer), s4)
              else Some (JFloat (integer @ frac @ ex), s4))"

text \<open>
  \<^verbatim>\<open>scan_once\<close>, \<^verbatim>\<open>JSONArray\<close> and \<^verbatim>\<open>JSONObject\<close>. The first argument bounds the number of
  nested calls; where it is used up the decoder stops with \<open>RecursionError\<close>. The bound
  that \<open>json_loads\<close> starts with is never used up (\<open>json_loads_error\<close> below); the
  recursion limit of the interpreter itself is not modelled.
\<close>

fun scan_once :: "nat \<Rightarrow> pystr \<Rightarrow> exn + (json \<times> pystr)"
  and array_items :: "nat \<Rightarrow> pystr \<Rightarrow> exn + (json list \<times> pystr)"
  and object_members :: "nat \<Rightarrow> pystr \<Rightarrow> exn + ((pystr \<times> json) list \<times> pystr)"
where
  "scan_once 0 s = Inl RecursionError"
| "scan_once (Suc n) [] = Inl JSONDecodeError"
| "scan_once (Suc n) (c # cs) =
     (if c = 34 then
        (case scanstring cs of Inl e \<Rightarrow> Inl e | Inr (str, rest) \<Rightarrow> Inr (JString str, rest))
      else if c = 123 then
        (case skip_ws cs of
           [] \<Rightarrow> Inl JSONDecodeError
         | d # r \<Rightarrow>
             if d = 125 then Inr (JObject [], r)
             else if d \<noteq> 34 then Inl JSONDecodeError
             else (case object_members n r of
                     Inl e \<Rightarrow> Inl e
                   | Inr (pairs, rest) \<Rightarrow> Inr (JObject (py_dict pairs), rest)))
      else if c = 91 then
        (case skip_ws cs of
           [] \<Rightarrow> Inl JSONDecodeError
         | d # r \<Rightarrow>
             if d = 93 then Inr (JArray [], r)
             else (case array_items n (d # r) of
                     Inl e \<Rightarrow> Inl e
                   | Inr (vs, rest) \<Rightarrow> Inr (JArray vs, rest)))
      else if c = 110 \<and> take 4 (c # cs) = ascii ''null'' then Inr (JNull, drop 3 cs)
      else if c = 116 \<and> take 4 (c # cs) = ascii ''true'' then Inr (JBool True, drop 3 cs)
      else if c = 102 \<and> take 5 (c # cs) = ascii ''false'' then Inr (JBool False, drop 4 cs)
      else
        (case match_number (c # cs) of
           Some res \<Rightarrow> Inr res
         | None \<Rightarrow>
             if c = 78 \<and> take 3 (c # cs) = ascii ''NaN''
             then Inr (JFloat (ascii ''NaN''), drop 2 cs)
             else if c = 73 \<and> take 8 (c # cs) = ascii ''Infinity''
             then Inr (JFloat (ascii ''Infinity''), drop 7 cs)
             else if c = 45 \<and> take 9 (c # cs) = ascii ''-Infinity''
             then Inr (JFloat (ascii ''-Infinity''), drop 8 cs)
             else Inl JSONDecodeError))"
| "array_items 0 s = Inl RecursionError"
| "array_items (Suc n) s =
     (case scan_once n s of
        Inl e \<Rightarrow> Inl e
      | Inr (v, r) \<Rightarrow>
          (case skip_ws r of
             [] \<Rightarrow> Inl JSONDecodeError
           | d # r' \<Rightarrow>
               if d = 93 then Inr ([v], r')
               else if d \<noteq> 44 then Inl JSONDecodeError
               else (case array_items n (skip_ws r') of
                       Inl e \<Rightarrow> Inl e
                     | Inr (vs, rest) \<Rightarrow> Inr (v # vs, rest))))"
| "object_members 0 s = Inl RecursionError"
| "object_members (Suc n) s =
     (case scanstring s of
        Inl e \<Rightarrow> Inl e
      | Inr (key, r) \<Rightarrow>
          (case skip_ws r of
             [] \<Rightarrow> Inl JSONDecodeError
           | d # r1 \<Rightarrow>
               if d \<noteq> 58 then Inl JSONDecodeError
               else
                 (case scan_once n (skip_ws r1) of
                    Inl e \<Rightarrow> Inl e
                  | Inr (v, r2) \<Rightarrow>
                      (case skip_ws r2 of
                         [] \<Rightarrow> Inl JSONDecodeError
                       | d2 # r3 \<Rightarrow>
                           if d2 = 125 then Inr ([(key, v)], r3)
                           else if d2 \<noteq> 44 then Inl JSONDecodeError
                           else
                             (case skip_ws r3 of
                                [] \<Rightarrow> Inl JSONDecodeError
                              | q # r4 \<Rightarrow>
                                  if q \<noteq> 34 then Inl JSONDecodeError
                                  else (case object_members n r4 of
                                          Inl e \<Rightarrow> Inl e
                                        | Inr (pairs, rest) \<Rightarrow>
                                            Inr ((key, v) # pairs, rest)))))))"

text \<open>
  \<^verbatim>\<open>json.loads(s)\<close> for a \<^verbatim>\<open>str\<close>: a leading byte-order mark is refused, whitespace
  around the one value is skipped, anything else behind it is \<^verbatim>\<open>Extra data\<close>.
\<close>

definition json_loads :: "pystr \<Rightarrow> exn + json" where
  "json_loads s =
     (if take 1 s = [65279] then Inl JSONDecodeError
      else
        (case scan_once (2 * length s + 2) (skip_ws s) of
           Inl e \<Rightarrow> Inl e
         | Inr (obj, rest) \<Rightarrow> if skip_ws rest = [] then Inr obj else Inl JSONDecodeError))"

section \<open>\<^verbatim>\<open>random.shuffle\<close>\<close>

text \<open>
  \<^verbatim>\<open>for i in reversed(range(1, len(x))): j = randbelow(i + 1); x[i], x[j] = x[j], x[i]\<close>.
  The generator is a sequence of draws: the \<open>k\<close>-th call of \<^verbatim>\<open>randbelow(n)\<close> returns
  \<open>draws k mod n\<close>, so every run of the generator is some \<open>draws\<close>.
\<close>

fun shuffle_loop :: "(nat \<Rightarrow> nat) \<Rightarrow> nat \<Rightarrow> nat \<Rightarrow> 'a list \<Rightarrow> 'a list" where
  "shuffle_loop draws k 0 x = x"
| "shuffle_loop draws k (Suc i) x =
     (let j = draws k mod (Suc i + 1)
      in shuffle_loop draws (k + 1) i (x[Suc i := x ! j, j := x ! Suc i]))"

definition shuffle :: "(nat \<Rightarrow> nat) \<Rightarrow> 'a list \<Rightarrow> 'a list" where
  "shuffle draws x = shuffle_loop draws 0 (length x - 1) x"

section \<open>The collaborators of the service\<close>

text \<open>
  The reply of the remote model, as far as the service reads it: the list
  \<^verbatim>\<open>response.candidates\<close> and the accessor \<^verbatim>\<open>response.text\<close>, which returns the text or
  raises. The accessor is a property of a reply that no longer changes, so each read of
  it has the same outcome. \<^verbatim>\<open>response.prompt_feedback\<close> is only printed.
\<close>

type_synonym bytes = "int list"

datatype image = Image bytes

datatype part = Text pystr | Picture image

datatype request = Contents "part list" | Prompt pystr

datatype model = GenerativeModel pystr

datatype candidate = Candidate pystr

record response =
  candidates :: "candidate list"
  response_text :: "exn + pystr"

text \<open>
  What lies outside the module: the remote call \<^verbatim>\<open>model.generate_content_async(request)\<close>
  (an exception or a reply), \<^verbatim>\<open>Image.open(io.BytesIO(image_bytes))\<close>, \<^verbatim>\<open>json.loads\<close> and the
  draws of the random generator. The service is verified for every such environment;
  \<open>json_loads\<close> above is the instance of \<open>loads\<close> for concrete replies. Only subclasses
  of \<^verbatim>\<open>Exception\<close> are raised.
\<close>

record env =
  generate_content_async :: "model \<Rightarrow> request \<Rightarrow> exn + response"
  Image_open :: "bytes \<Rightarrow> exn + image"
  loads :: "pystr \<Rightarrow> exn + json"
  draws :: "nat \<Rightarrow> nat"

text \<open>
  The module \<^verbatim>\<open>config\<close>, a global that every method can read, and the message of the
  bot framework.
\<close>

record config =
  GEMINI_API_KEY :: "pystr option"
  ENABLE_AI_FILTER :: bool

record message =
  message_text :: "pystr option"

text \<open>A remote call that was made: the model handle and what was sent.\<close>

type_synonym call = "model \<times> request"

section \<open>\<^verbatim>\<open>GeminiService\<close>\<close>

record GeminiService =
  filter_model :: "model option"
  verification_model :: "model option"

text \<open>\<^verbatim>\<open>__init__\<close>: both handles exist exactly when the API key is truthy.\<close>

definition GeminiService_init :: "config \<Rightarrow> GeminiService" where
  "GeminiService_init cfg =
     (if GEMINI_API_KEY cfg \<noteq> None \<and> GEMINI_API_KEY cfg \<noteq> Some []
      then \<lparr>filter_model = Some (GenerativeModel (ascii ''gemini-2.5-flash'')),
            verification_model = Some (GenerativeModel (ascii ''gemini-2.5-flash-lite''))\<rparr>
      else \<lparr>filter_model = None, verification_model = None\<rparr>)"

subsection \<open>The fixed results\<close>

definition verdict :: "bool \<Rightarrow> pystr \<Rightarrow> json" where
  "verdict is_spam reason =
     JObject [(ascii ''is_spam'', JBool is_spam), (ascii ''reason'', JString reason)]"

definition filter_disabled :: json where
  "filter_disabled = verdict False (ascii ''AI filter disabled'')"

definition no_content :: json where
  "no_content = verdict False (ascii ''No content to analyze'')"

definition moderation_failed_reason :: pystr where
  "moderation_failed_reason =
     [20869, 23481, 23457, 26597, 22833, 36133, 65292, 21487, 33021, 21253, 21547, 19981] @
     [24403, 20869, 23481, 12290]"

definition moderation_failed :: json where
  "moderation_failed = verdict True moderation_failed_reason"

definition analysis_failed :: json where
  "analysis_failed = verdict False (ascii ''Analysis failed'')"

definition unblock_fallback :: json where
  "unblock_fallback =
     JObject
       [(ascii ''question'',
         JString [20013, 22269, 30340, 39318, 37117, 26159, 21738, 37324, 65311]),
        (ascii ''answer'', JString [21271, 20140])]"

definition challenge_fallback :: json where
  "challenge_fallback =
     JObject
       [(ascii ''question'', JString (ascii ''1 + 1 = ?'')),
        (ascii ''correct_answer'', JString (ascii ''2'')),
        (ascii ''options'',
         JArray [JString (ascii ''1''), JString (ascii ''2''), JString (ascii ''3''),
                 JString (ascii ''4'')])]"

subsection \<open>The prompts\<close>

definition prompt_parts :: "pystr list" where
  "prompt_parts =
    [[20320, 26159, 19968, 20010, 20869, 23481, 23457, 26597, 21592, 12290, 20320, 30340] @
     [20219, 21153, 26159, 20998, 26512, 25552, 20379, 32473, 20320, 30340, 25991, 26412] @
     [21644] @ ascii ''/'' @
     [25110, 22270, 29255, 20869, 23481, 65292, 24182, 21028, 26029, 20854, 26159, 21542] @
     [21253, 21547, 22403, 22334, 20449, 24687, 12289, 24694, 24847, 36719, 20214, 12289] @
     [38035, 40060, 38142, 25509, 12289, 19981, 24403, 35328, 35770, 12289, 36785, 39554] @
     [12289, 25915, 20987, 24615, 35789, 35821, 25110, 20219, 20309, 36829, 21453, 23433] @
     [20840, 25919, 31574, 30340, 20869, 23481, 12290],

     [35831, 20005, 26684, 25353, 29031, 35201, 27714, 65292, 20165, 20197] @ ascii ''JSON'' @
     [26684, 24335, 36820, 22238, 20320, 30340, 20998, 26512, 32467, 26524, 65292, 19981] @
     [35201, 21253, 21547, 20219, 20309, 39069, 22806, 30340, 35299, 37322, 25110, 26631] @
     [35760, 12290],

     [42, 42, 36755, 20986, 26684, 24335, 42, 42] @ ascii '': '' @
     [20320, 24517, 39035, 19988, 21482, 33021, 20197, 20005, 26684, 30340] @ ascii ''JSON'' @
     [26684, 24335, 36820, 22238, 20320, 30340, 20998, 26512, 32467, 26524, 65292, 19981] @
     [24471, 21253, 21547, 20219, 20309, 35299, 37322, 24615, 25991, 23383, 25110, 20195] @
     [30721, 22359, 26631, 35760, 12290],

     [42, 42] @ ascii ''JSON'' @ [32467, 26500, 42, 42] @ ascii '':'' @ [10, 96, 96, 96] @
     ascii ''json'' @ [10] @ ascii ''{'' @ [10] @ ascii ''  '' @ [34] @ ascii ''is_spam'' @ [34] @
     ascii '': boolean,'' @ [10] @ ascii ''  '' @ [34] @ ascii ''reason'' @ [34] @ ascii '': '' @
     [34] @ ascii ''string'' @ [34, 10] @ ascii ''}'' @ [10, 96, 96, 96, 10, 42] @ ascii ''   '' @
     [96] @ ascii ''is_spam'' @ [96] @ ascii '': '' @
     [22914, 26524, 20869, 23481, 36829, 21453, 42, 42, 20219, 20309, 19968, 26465] @
     [42, 42, 23433, 20840, 31574, 30053, 65292, 21017, 20026] @ ascii '' '' @ [96] @
     ascii ''true'' @
     [96, 65307, 22914, 26524, 20869, 23481, 23436, 20840, 23433, 20840, 65292, 21017] @ [20026] @
     ascii '' '' @ [96] @ ascii ''false'' @ [96, 12290, 10, 42] @ ascii ''   '' @ [96] @
     ascii ''reason'' @ [96] @ ascii '': '' @
     [29992, 19968, 21477, 35805, 31934, 20934, 27010, 25324, 21028, 26029, 20381, 25454] @
     [12290, 22914, 26524, 36829, 35268, 65292, 35831, 26126, 30830, 25351, 20986, 36829] @
     [35268, 30340, 31867, 22411, 12290, 22914, 26524, 23433, 20840, 65292, 27492, 23383] @
     [27573, 22266, 23450, 20026] @ ascii '' '' @
     [96, 34, 20869, 23481, 26410, 21457, 29616, 36829, 35268, 12290, 34, 96],

     [10] @ ascii ''--- '' @
     [20197, 19979, 26159, 38656, 35201, 20998, 26512, 30340, 20869, 23481] @ ascii '' ---'']"

definition unblock_prompt :: pystr where
  "unblock_prompt =
     [10] @ ascii ''        '' @
     [29983, 25104, 19968, 20010, 31616, 21333, 30340, 24120, 35782, 38382, 39064, 29992] @
     [20110, 35299, 23553, 39564, 35777, 12290, 10] @ ascii ''        '' @ [35831, 20197] @
     ascii ''JSON'' @ [26684, 24335, 22238, 22797] @ ascii '': {{'' @ [34] @ ascii ''question'' @
     [34] @ ascii '': '' @ [34, 38382, 39064, 34] @ ascii '', '' @ [34] @ ascii ''answer'' @
     [34] @ ascii '': '' @ [34, 31572, 26696, 34] @ ascii ''}}'' @ [10] @ ascii ''        ''"

definition challenge_prompt :: pystr where
  "challenge_prompt =
     [10] @ ascii ''        '' @
     [35831, 29983, 25104, 19968, 20010, 29992, 20110, 20154, 26426, 39564, 35777, 30340] @
     [24120, 35782, 24615, 38382, 39064, 12290, 10] @ ascii ''        '' @
     [35201, 27714, 65306, 10] @ ascii ''        1. '' @
     [38382, 39064, 24212, 35813, 31616, 21333, 65292, 22823, 37096, 20998, 20154, 37117] @
     [33021, 22238, 31572, 12290, 10] @ ascii ''        2. '' @
     [25552, 20379, 19968, 20010, 27491, 30830, 31572, 26696, 21644, 19977, 20010, 30475] @
     [36215, 26469, 21512, 29702, 20294, 38169, 35823, 30340, 24178, 25200, 39033, 12290] @ [10] @
     ascii ''        3. '' @
     [25152, 26377, 20869, 23481, 24517, 39035, 20026, 31616, 20307, 20013, 25991, 12290] @ [10] @
     ascii ''        4. '' @ [20197] @ ascii ''JSON'' @
     [26684, 24335, 36820, 22238, 65292, 21253, 21547, 20197, 19979, 38190, 65306] @ ascii '' '' @
     [34] @ ascii ''question'' @ [34] @ ascii '', '' @ [34] @ ascii ''correct_answer'' @ [34] @
     ascii '', '' @ [34] @ ascii ''incorrect_answers'' @ [34] @ ascii '' ('' @
     [19968, 20010, 21253, 21547, 19977, 20010, 23383, 31526, 20018, 30340, 21015, 34920] @
     ascii '')'' @ [12290, 10] @ ascii ''        '' @ [10] @ ascii ''        '' @ [31034, 20363] @
     ascii '':'' @ [10] @ ascii ''        {'' @ [10] @ ascii ''          '' @ [34] @
     ascii ''question'' @ [34] @ ascii '': '' @
     [34, 22826, 38451, 20174, 21738, 20010, 26041, 21521, 21319, 36215, 65311, 34] @
     ascii '','' @ [10] @ ascii ''          '' @ [34] @ ascii ''correct_answer'' @ [34] @
     ascii '': '' @ [34, 19996, 26041, 34] @ ascii '','' @ [10] @ ascii ''          '' @ [34] @
     ascii ''incorrect_answers'' @ [34] @ ascii '': ['' @ [34, 35199, 26041, 34] @ ascii '', '' @
     [34, 21335, 26041, 34] @ ascii '', '' @ [34, 21271, 26041, 34] @ ascii '']'' @ [10] @
     ascii ''        }'' @ [10] @ ascii ''        ''"

subsection \<open>\<^verbatim>\<open>analyze_message\<close>\<close>

text \<open>
  Lines 33 to 42: the content list. A text or a byte string that is \<^verbatim>\<open>None\<close> or empty is
  falsy; an image that does not open is dropped.
\<close>

definition build_content :: "env \<Rightarrow> message \<Rightarrow> bytes option \<Rightarrow> part list" where
  "build_content e msg image_bytes =
     (case message_text msg of
        None \<Rightarrow> []
      | Some t \<Rightarrow> if t = [] then [] else [Text t]) @
     (case image_bytes of
        None \<Rightarrow> []
      | Some b \<Rightarrow>
          if b = [] then []
          else (case Image_open e b of Inl err \<Rightarrow> [] | Inr img \<Rightarrow> [Picture img]))"

text \<open>
  \<^verbatim>\<open>print\<close> writes to a standard output that encodes UTF-8: it raises
  \<^verbatim>\<open>UnicodeEncodeError\<close> where the text to write holds a surrogate code point, and
  returns otherwise. The text of a reply and the message of an exception are decoded
  text and hold none, and a list is written through \<^verbatim>\<open>repr\<close>, which escapes surrogates, so
  every print but the one of line 71 returns. Line 71 prints
  \<^verbatim>\<open>f"Parsed result: {result}"\<close>, and the value that \<^verbatim>\<open>json.loads\<close> builds can hold a
  surrogate (from the escape \<^verbatim>\<open>\ud800\<close>): a \<^verbatim>\<open>str\<close> is written as it is, every other value
  through \<^verbatim>\<open>repr\<close>.
\<close>

definition surrogate :: "pychar \<Rightarrow> bool" where
  "surrogate c \<longleftrightarrow> 55296 \<le> c \<and> c \<le> 57343"

definition print_fails :: "json \<Rightarrow> bool" where
  "print_fails result = (case result of JString s \<Rightarrow> list_ex surrogate s | _ \<Rightarrow> False)"

text \<open>
  Lines 55 to 72, the \<^verbatim>\<open>try\<close> block behind the remote call: the value returned, or the
  exception raised there. The last step before the \<^verbatim>\<open>return\<close> is the print of line 71.
\<close>

definition analyze_reply :: "env \<Rightarrow> response \<Rightarrow> exn + json" where
  "analyze_reply e response =
     (if candidates response = [] then Inr moderation_failed
      else
        (case response_text response of
           Inl err \<Rightarrow> Inl err
         | Inr t \<Rightarrow>
             if t = [] then Inl ValueError
             else
               (case loads e (clean_text t) of
                  Inl err \<Rightarrow> Inl err
                | Inr result \<Rightarrow>
                    if print_fails result then Inl UnicodeEncodeError else Inr result)))"

text \<open>
  Lines 73 to 81, the handler. Its argument is the reply when \<^verbatim>\<open>response\<close> is among the
  locals. It reads \<^verbatim>\<open>response.text\<close> again for the log; only a \<^verbatim>\<open>ValueError\<close> of that read
  is caught.
\<close>

definition analyze_except :: "response option \<Rightarrow> json outcome" where
  "analyze_except r =
     (case r of
        None \<Rightarrow> Returned analysis_failed
      | Some response \<Rightarrow>
          if candidates response \<noteq> [] then
            (case response_text response of
               Inl err \<Rightarrow>
                 if isinstance_ValueError err then Returned analysis_failed else Raised err
             | Inr t \<Rightarrow> Returned analysis_failed)
          else Returned analysis_failed)"

definition analyze_message ::
  "config \<Rightarrow> env \<Rightarrow> GeminiService \<Rightarrow> message \<Rightarrow> bytes option \<Rightarrow> json outcome \<times> call list"
where
  "analyze_message cfg e self msg image_bytes =
     (case filter_model self of
        None \<Rightarrow> (Returned filter_disabled, [])
      | Some fm \<Rightarrow>
          if \<not> ENABLE_AI_FILTER cfg then (Returned filter_disabled, [])
          else
            let content = build_content e msg image_bytes
            in if content = [] then (Returned no_content, [])
               else
                 let content = content @ [Text (join [10] prompt_parts)]
                 in ((case generate_content_async e fm (Contents content) of
                        Inl err \<Rightarrow> analyze_except None
                      | Inr response \<Rightarrow>
                          (case analyze_reply e response of
                             Inr result \<Rightarrow> Returned result
                           | Inl err \<Rightarrow> analyze_except (Some response))),
                     [(fm, Contents content)]))"

subsection \<open>\<^verbatim>\<open>generate_unblock_question\<close>\<close>

definition generate_unblock_question ::
  "config \<Rightarrow> env \<Rightarrow> GeminiService \<Rightarrow> json outcome \<times> call list"
where
  "generate_unblock_question cfg e self =
     (case verification_model self of
        None \<Rightarrow> (Returned unblock_fallback, [])
      | Some vm \<Rightarrow>
          ((case generate_content_async e vm (Prompt unblock_prompt) of
              Inl err \<Rightarrow> Returned unblock_fallback
            | Inr response \<Rightarrow>
                (case response_text response of
                   Inl err \<Rightarrow> Returned unblock_fallback
                 | Inr t \<Rightarrow>
                     (case loads e t of
                        Inl err \<Rightarrow> Returned unblock_fallback
                      | Inr result \<Rightarrow> Returned result))),
           [(vm, Prompt unblock_prompt)]))"

subsection \<open>\<^verbatim>\<open>generate_verification_challenge\<close>\<close>

text \<open>
  \<^verbatim>\<open>data[key]\<close> for a string key: the value of a \<^verbatim>\<open>dict\<close>, \<^verbatim>\<open>KeyError\<close> where the key is
  missing, \<^verbatim>\<open>TypeError\<close> on every other value.
\<close>

definition getitem :: "json \<Rightarrow> pystr \<Rightarrow> exn + json" where
  "getitem data key =
     (case data of
        JObject kvs \<Rightarrow> (case map_of kvs key of None \<Rightarrow> Inl KeyError | Some v \<Rightarrow> Inr v)
      | _ \<Rightarrow> Inl TypeError)"

text \<open>\<^verbatim>\<open>value + [x]\<close>: defined for a \<^verbatim>\<open>list\<close>, \<^verbatim>\<open>TypeError\<close> on every other value.\<close>

definition add_list :: "json \<Rightarrow> json list \<Rightarrow> exn + json list" where
  "add_list v ys = (case v of JArray xs \<Rightarrow> Inr (xs @ ys) | _ \<Rightarrow> Inl TypeError)"

text \<open>Lines 138 to 146: the challenge built from the parsed reply.\<close>

definition build_challenge :: "env \<Rightarrow> json \<Rightarrow> exn + json" where
  "build_challenge e data =
     (case getitem data (ascii ''correct_answer'') of
        Inl err \<Rightarrow> Inl err
      | Inr correct_answer \<Rightarrow>
          (case getitem data (ascii ''incorrect_answers'') of
             Inl err \<Rightarrow> Inl err
           | Inr incorrect_answers \<Rightarrow>
               (case add_list incorrect_answers [correct_answer] of
                  Inl err \<Rightarrow> Inl err
                | Inr options \<Rightarrow>
                    let options = shuffle (draws e) options
                    in (case getitem data (ascii ''question'') of
                          Inl err \<Rightarrow> Inl err
                        | Inr question \<Rightarrow>
                            Inr (JObject
                                  [(ascii ''question'', question),
                                   (ascii ''correct_answer'', correct_answer),
                                   (ascii ''options'', JArray options)])))))"

text \<open>Lines 130 to 146, the \<^verbatim>\<open>try\<close> block behind the remote call.\<close>

definition challenge_reply :: "env \<Rightarrow> response \<Rightarrow> exn + json" where
  "challenge_reply e response =
     (case response_text response of
        Inl err \<Rightarrow> Inl err
      | Inr t \<Rightarrow>
          if t = [] then Inl ValueError
          else
            (case loads e (clean_text t) of
               Inl err \<Rightarrow> Inl err
             | Inr data \<Rightarrow> build_challenge e data))"

text \<open>
  Lines 147 to 157, the handler. \<^verbatim>\<open>hasattr(response, 'text')\<close> reads the accessor: it is
  false where the read raises \<^verbatim>\<open>AttributeError\<close>, and every other exception of the read
  leaves the handler.
\<close>

definition challenge_except :: "response option \<Rightarrow> json outcome" where
  "challenge_except r =
     (case r of
        None \<Rightarrow> Returned challenge_fallback
      | Some response \<Rightarrow>
          (case response_text response of
             Inl err \<Rightarrow> if err = AttributeError then Returned challenge_fallback else Raised err
           | Inr t \<Rightarrow> Returned challenge_fallback))"

definition generate_verification_challenge ::
  "config \<Rightarrow> env \<Rightarrow> GeminiService \<Rightarrow> json outcome \<times> call list"
where
  "generate_verification_challenge cfg e self =
     (case verification_model self of
        None \<Rightarrow> (Returned challenge_fallback, [])
      | Some vm \<Rightarrow>
          ((case generate_content_async e vm (Prompt challenge_prompt) of
              Inl err \<Rightarrow> challenge_except None
            | Inr response \<Rightarrow>
                (case challenge_reply e response of
                   Inr result \<Rightarrow> Returned result
                 | Inl err \<Rightarrow> challenge_except (Some response))),
           [(vm, Prompt challenge_prompt)]))"

section \<open>The documented result shapes\<close>

text \<open>
  The shapes of the data model: a verdict has a boolean \<^verbatim>\<open>is_spam\<close> and a string
  \<^verbatim>\<open>reason\<close>, an unblock question has the strings \<^verbatim>\<open>question\<close> and \<^verbatim>\<open>answer\<close>, a challenge
  has the strings \<^verbatim>\<open>question\<close> and \<^verbatim>\<open>correct_answer\<close> and a list \<^verbatim>\<open>options\<close>.
\<close>

definition is_verdict :: "json \<Rightarrow> bool" where
  "is_verdict v =
     (case v of
        JObject kvs \<Rightarrow>
          (case (map_of kvs (ascii ''is_spam''), map_of kvs (ascii ''reason'')) of
             (Some (JBool b), Some (JString r)) \<Rightarrow> True
           | _ \<Rightarrow> False)
      | _ \<Rightarrow> False)"

definition is_unblock_question :: "json \<Rightarrow> bool" where
  "is_unblock_question v =
     (case v of
        JObject kvs \<Rightarrow>
          (case (map_of kvs (ascii ''question''), map_of kvs (ascii ''answer'')) of
             (Some (JString q), Some (JString a)) \<Rightarrow> True
           | _ \<Rightarrow> False)
      | _ \<Rightarrow> False)"

definition is_challenge :: "json \<Rightarrow> bool" where
  "is_challenge v =
     (case v of
        JObject kvs \<Rightarrow>
          (case (map_of kvs (ascii ''question''), map_of kvs (ascii ''correct_answer''),
                 map_of kvs (ascii ''options'')) of
             (Some (JString q), Some (JString c), Some (JArray opts)) \<Rightarrow> True
           | _ \<Rightarrow> False)
      | _ \<Rightarrow> False)"

text \<open>
  What \<^verbatim>\<open>generate_verification_challenge\<close> needs of the parsed reply to get through
  lines 138 to 146: a \<^verbatim>\<open>dict\<close> with the three keys whose \<^verbatim>\<open>incorrect_answers\<close> is a
  list. The length of the list is not looked at.
\<close>

definition usable_challenge :: "json \<Rightarrow> bool" where
  "usable_challenge data =
     (case data of
        JObject kvs \<Rightarrow>
          (case (map_of kvs (ascii ''correct_answer''), map_of kvs (ascii ''incorrect_answers''),
                 map_of kvs (ascii ''question'')) of
             (Some c, Some (JArray xs), Some q) \<Rightarrow> True
           | _ \<Rightarrow> False)
      | _ \<Rightarrow> False)"

section \<open>Concrete environments and replies\<close>

text \<open>
  An environment whose remote model gives the same outcome to every request, whose
  images all open, whose decoder is \<open>json_loads\<close> and whose random draws are all \<open>0\<close>.
\<close>

definition replying :: "exn + response \<Rightarrow> env" where
  "replying reply =
     \<lparr>generate_content_async = (\<lambda>m req. reply), Image_open = (\<lambda>b. Inr (Image b)),
      loads = json_loads, draws = (\<lambda>k. 0)\<rparr>"

text \<open>A reply with one candidate and the given outcome of the text accessor.\<close>

definition reply :: "exn + pystr \<Rightarrow> response" where
  "reply t = \<lparr>candidates = [Candidate []], response_text = t\<rparr>"

definition configured :: config where
  "configured = \<lparr>GEMINI_API_KEY = Some (ascii ''key''), ENABLE_AI_FILTER = True\<rparr>"

definition sample_message :: message where
  "sample_message = \<lparr>message_text = Some (ascii ''some text'')\<rparr>"

text \<open>
  The fenced reply \<^verbatim>\<open>```json\n{"is_spam": true, "reason": "..."}\n```\<close> with the two-character
  reason U+8FB1 U+9A82, and a reply that lacks the key \<^verbatim>\<open>reason\<close>.
\<close>

definition fenced_verdict :: pystr where
  "fenced_verdict =
     ascii ''```json'' @ [10, 123, 34] @ ascii ''is_spam'' @ [34] @ ascii '': true, '' @ [34] @
     ascii ''reason'' @ [34, 58, 32, 34, 36785, 39554, 34, 125, 10] @ ascii ''```''"

definition partial_verdict :: pystr where
  "partial_verdict = [123, 34] @ ascii ''is_spam'' @ [34] @ ascii '': true}''"

text \<open>The reply \<^verbatim>\<open>"\ud800"\<close>: a JSON string whose one character is a lone surrogate.\<close>

definition surrogate_reply :: pystr where
  "surrogate_reply = [34, 92] @ ascii ''ud800'' @ [34]"

text \<open>
  Replies to the challenge prompt:
  \<^verbatim>\<open>{"question": "Q", "correct_answer": "A", "incorrect_answers": ["B", "C", "D"]}\<close>, the same
  with the two distractors \<^verbatim>\<open>["B", "C"]\<close>, and one cut off behind the question.
\<close>

definition challenge_text :: "pystr \<Rightarrow> pystr" where
  "challenge_text distractors =
     [123, 34] @ ascii ''question'' @ [34, 58, 32, 34, 81, 34, 44, 32, 34] @
     ascii ''correct_answer'' @ [34, 58, 32, 34, 65, 34, 44, 32, 34] @
     ascii ''incorrect_answers'' @ [34, 58, 32] @ distractors @ [125]"

definition three_distractors :: pystr where
  "three_distractors = [91, 34, 66, 34, 44, 32, 34, 67, 34, 44, 32, 34, 68, 34, 93]"

definition two_distractors :: pystr where
  "two_distractors = [91, 34, 66, 34, 44, 32, 34, 67, 34, 93]"

definition truncated_challenge :: pystr where
  "truncated_challenge = [123, 34] @ ascii ''question'' @ [34, 58, 32, 34, 81, 34, 44]"

text \<open>A reply to the unblock prompt: \<^verbatim>\<open>{"question": "2+2?", "answer": "4"}\<close>.\<close>

definition unblock_text :: pystr where
  "unblock_text =
     [123, 34] @ ascii ''question'' @ [34, 58, 32, 34] @ ascii ''2+2?'' @ [34, 44, 32, 34] @
     ascii ''answer'' @ [34, 58, 32, 34, 52, 34, 125]"

section \<open>Facts about the collaborators\<close>

subsection \<open>The shuffle is a permutation\<close>

lemma length_shuffle_loop: "length (shuffle_loop d k i x) = length x"
  by (induction i arbitrary: k x) (simp_all add: Let_def)

lemma mset_shuffle_loop: "i < length x \<Longrightarrow> mset (shuffle_loop d k i x) = mset x"
proof (induction i arbitrary: k x)
  case 0
  then show ?case by simp
next
  case (Suc i)
  define j where "j = d k mod (Suc i + 1)"
  have j: "j < length x"
    using Suc.prems by (simp add: j_def) (metis Suc_lessI less_Suc_eq_le less_trans_Suc mod_less_divisor not_less zero_less_Suc)
  have swap: "mset (x[Suc i := x ! j, j := x ! Suc i]) = mset x"
    using Suc.prems j by (simp add: mset_swap)
  have "mset (shuffle_loop d (k + 1) i (x[Suc i := x ! j, j := x ! Suc i])) =
        mset (x[Suc i := x ! j, j := x ! Suc i])"
    using Suc.prems by (intro Suc.IH) simp
  with swap show ?case
    by (simp add: Let_def j_def)
qed

lemma mset_shuffle: "mset (shuffle d x) = mset x"
proof (cases x)
  case Nil
  then show ?thesis by (simp add: shuffle_def)
next
  case (Cons a as)
  then show ?thesis by (simp add: shuffle_def mset_shuffle_loop)
qed

lemma length_shuffle: "length (shuffle d x) = length x"
  by (simp add: shuffle_def length_shuffle_loop)

lemma set_shuffle: "set (shuffle d x) = set x"
  using mset_shuffle [of d x] by (metis set_mset_mset)

lemma distinct_shuffle: "distinct (shuffle d x) = distinct x"
  using mset_shuffle [of d x] by (metis mset_eq_imp_distinct_iff)

subsection \<open>What the fence pattern matches and deletes\<close>

lemma isspace_not_backtick: "isspace c \<Longrightarrow> c \<noteq> 96"
  by (auto simp: isspace_def)

lemma space_star_nonempty: "space_star s \<noteq> []"
  by (induction s) simp_all

lemma hd_space_star: "hd (space_star s) = dropWhile isspace s"
  by (induction s) (simp_all add: space_star_nonempty)

lemma space_star_hd: "space_star s = dropWhile isspace s # tl (space_star s)"
  using space_star_nonempty [of s] hd_space_star [of s] by (cases "space_star s") simp_all

lemma lit_after_space_star:
  "concat (map (rmatch (Lit (96 # l))) (space_star s)) =
     rmatch (Lit (96 # l)) (dropWhile isspace s)"
proof (induction s)
  case Nil
  then show ?case by simp
next
  case (Cons c cs)
  show ?case
  proof (cases "isspace c")
    case True
    then have "c \<noteq> 96" by (rule isspace_not_backtick)
    with True Cons show ?thesis by simp
  next
    case False
    then show ?thesis by simp
  qed
qed

lemma ascii_fence: "ascii ''```'' = [96, 96, 96]"
  and ascii_fence_json: "ascii ''```json'' = [96, 96, 96, 106, 115, 111, 110]"
  by (simp_all add: ascii_def)

lemma length_fence: "length (ascii ''```'') = 3"
  and length_fence_json: "length (ascii ''```json'') = 7"
  by (simp_all add: ascii_def)

text \<open>
  The matches of the pattern at a position: the opening fence with the whitespace behind
  it, or else the whitespace up to a fence together with that fence.
\<close>

lemma rmatch_fence_re:
  "rmatch fence_re s =
     (if take 7 s = ascii ''```json'' then space_star (drop 7 s) else []) @
     (if take 3 (dropWhile isspace s) = ascii ''```'' then [drop 3 (dropWhile isspace s)]
      else [])"
proof -
  have "concat (map (rmatch (Lit (ascii ''```''))) (space_star s)) =
        rmatch (Lit (ascii ''```'')) (dropWhile isspace s)"
    unfolding ascii_fence by (rule lit_after_space_star)
  then show ?thesis
    by (simp add: fence_re_def length_fence length_fence_json)
qed

lemma no_backtick_no_match:
  assumes "96 \<notin> set s"
  shows "rmatch fence_re s = []"
proof -
  have "96 \<notin> set (take 7 s)" and "96 \<notin> set (take 3 (dropWhile isspace s))"
    using assms by (auto dest: in_set_takeD set_dropWhileD)
  then have "take 7 s \<noteq> ascii ''```json''" and "take 3 (dropWhile isspace s) \<noteq> ascii ''```''"
    unfolding ascii_fence ascii_fence_json by auto
  then show ?thesis by (simp add: rmatch_fence_re)
qed

text \<open>A text without a backtick is left as it is.\<close>

lemma re_sub_no_backtick: "96 \<notin> set s \<Longrightarrow> re_sub_empty fence_re s = s"
proof (induction s)
  case Nil
  then show ?case by simp
next
  case (Cons c cs)
  then have "rmatch fence_re (c # cs) = []" by (intro no_backtick_no_match) simp
  with Cons show ?case by simp
qed

lemma dropWhile_spaces_append: "\<forall>c\<in>set ws. isspace c \<Longrightarrow> dropWhile isspace (ws @ s) = dropWhile isspace s"
  by (induction ws) simp_all

lemma spaces_no_backtick: "\<forall>c\<in>set ws. isspace c \<Longrightarrow> 96 \<notin> set ws"
  using isspace_not_backtick by blast

text \<open>
  The closing fence and the whitespace before it are deleted; whitespace behind it is
  kept.
\<close>

lemma re_sub_closing_fence:
  assumes "\<forall>c\<in>set ws. isspace c" and "\<forall>c\<in>set ws3. isspace c"
  shows "re_sub_empty fence_re (ws @ ascii ''```'' @ ws3) = ws3"
proof -
  have d: "dropWhile isspace (ws @ ascii ''```'' @ ws3) = ascii ''```'' @ ws3"
    using assms(1) by (simp add: dropWhile_spaces_append) (simp add: ascii_fence isspace_def)
  have n: "take 7 (ws @ ascii ''```'' @ ws3) \<noteq> ascii ''```json''"
  proof
    assume eq: "take 7 (ws @ ascii ''```'' @ ws3) = ascii ''```json''"
    show False
    proof (cases ws)
      case Nil
      show False
      proof (cases ws3)
        case Nil
        with \<open>ws = []\<close> eq show False by (simp add: ascii_fence ascii_fence_json)
      next
        case (Cons w ws')
        with \<open>ws = []\<close> eq have "w = 106" by (simp add: ascii_fence ascii_fence_json)
        moreover have "isspace w" using assms(2) Cons by simp
        ultimately show False by (simp add: isspace_def)
      qed
    next
      case (Cons w ws')
      with eq have "w = 96" by (simp add: ascii_fence_json)
      moreover have "isspace w" using assms(1) Cons by simp
      ultimately show False using isspace_not_backtick by blast
    qed
  qed
  obtain c cs where s: "ws @ ascii ''```'' @ ws3 = c # cs"
    by (cases "ws @ ascii ''```'' @ ws3") (simp_all add: ascii_fence)
  have "rmatch fence_re (c # cs) = [ws3]"
    using d n unfolding s [symmetric] by (simp add: rmatch_fence_re) (simp add: ascii_fence)
  moreover have "length ws3 < length (c # cs)"
    unfolding s [symmetric] by (simp add: ascii_fence)
  ultimately have "re_sub_empty fence_re (c # cs) = re_sub_empty fence_re ws3" by simp
  also have "\<dots> = ws3"
    using assms(2) by (intro re_sub_no_backtick spaces_no_backtick)
  finally show ?thesis by (simp add: s)
qed

lemma re_sub_body_closing_fence:
  assumes "96 \<notin> set body" and "body = [] \<or> \<not> isspace (last body)"
    and "\<forall>c\<in>set ws. isspace c" and "\<forall>c\<in>set ws3. isspace c"
  shows "re_sub_empty fence_re (body @ ws @ ascii ''```'' @ ws3) = body @ ws3"
  using assms(1,2)
proof (induction body)
  case Nil
  then show ?case using assms(3,4) by (simp add: re_sub_closing_fence)
next
  case (Cons c cs)
  let ?tail = "ws @ ascii ''```'' @ ws3"
  have c: "c \<noteq> 96" using Cons.prems by simp
  have nonspace: "\<exists>x\<in>set (c # cs). \<not> isspace x"
    using Cons.prems(2) by (metis last_in_set list.distinct(1))
  have "take 3 (dropWhile isspace ((c # cs) @ ?tail)) \<noteq> ascii ''```''"
  proof -
    from nonspace obtain x where x: "x \<in> set (c # cs)" "\<not> isspace x" by blast
    then have "dropWhile isspace ((c # cs) @ ?tail) = dropWhile isspace (c # cs) @ ?tail"
      by (intro dropWhile_append1) auto
    moreover have "dropWhile isspace (c # cs) \<noteq> []"
      using x by (simp add: dropWhile_eq_Nil_conv) blast
    moreover have "96 \<notin> set (dropWhile isspace (c # cs))"
      using Cons.prems(1) by (auto dest: set_dropWhileD)
    ultimately have "hd (dropWhile isspace ((c # cs) @ ?tail)) \<noteq> 96"
      by (metis hd_append2 hd_in_set)
    then show ?thesis
      by (cases "dropWhile isspace ((c # cs) @ ?tail)") (auto simp: ascii_fence)
  qed
  moreover have "take 7 ((c # cs) @ ?tail) \<noteq> ascii ''```json''"
    using c by (simp add: ascii_fence_json)
  ultimately have "rmatch fence_re (c # (cs @ ?tail)) = []"
    by (simp add: rmatch_fence_re)
  moreover have "re_sub_empty fence_re (cs @ ?tail) = cs @ ws3"
  proof (rule Cons.IH)
    show "96 \<notin> set cs" using Cons.prems(1) by simp
    show "cs = [] \<or> \<not> isspace (last cs)" using Cons.prems(2) by (cases cs) auto
  qed
  ultimately show ?case by simp
qed

lemma strip_spaces:
  assumes "\<forall>c\<in>set ws. isspace c"
  shows "strip ws = []"
proof -
  from assms have d: "dropWhile isspace ws = []"
    by (simp only: dropWhile_eq_Nil_conv)
  show ?thesis unfolding strip_def d by simp
qed

lemma strip_trailing:
  assumes "body = [] \<or> (\<not> isspace (hd body) \<and> \<not> isspace (last body))"
    and "\<forall>c\<in>set ws. isspace c"
  shows "strip (body @ ws) = body"
proof (cases body)
  case Nil
  with assms(2) show ?thesis by (simp add: strip_spaces)
next
  case (Cons c cs)
  with assms(1) have h: "\<not> isspace c" and l: "\<not> isspace (last (c # cs))" by auto
  have "dropWhile isspace (rev ws @ rev (c # cs)) = dropWhile isspace (rev (c # cs))"
    using assms(2) by (intro dropWhile_spaces_append) simp
  also have "\<dots> = rev (c # cs)"
    using l by (metis dropWhile_eq_Cons_conv hd_rev list.exhaust_sel list.sel(1)
        rev_is_Nil_conv list.distinct(1) dropWhile.simps(2))
  finally have "dropWhile isspace (rev ((c # cs) @ ws)) = rev (c # cs)"
    by simp
  moreover have "dropWhile isspace ((c # cs) @ ws) = (c # cs) @ ws"
    using h by simp
  ultimately show ?thesis
    unfolding Cons strip_def by (metis rev_rev_ident)
qed

text \<open>
  A reply that is one fenced block: the opening fence, whitespace, a body without
  backticks that neither starts nor ends with whitespace, whitespace, the closing
  fence, whitespace. What is left is the body.
\<close>

lemma clean_text_fenced:
  assumes ws1: "\<forall>c\<in>set ws1. isspace c" and ws2: "\<forall>c\<in>set ws2. isspace c"
    and ws3: "\<forall>c\<in>set ws3. isspace c"
    and body: "96 \<notin> set body"
    and ends: "body = [] \<or> (\<not> isspace (hd body) \<and> \<not> isspace (last body))"
  shows "clean_text (ascii ''```json'' @ ws1 @ body @ ws2 @ ascii ''```'' @ ws3) = body"
proof -
  let ?rest = "ws1 @ body @ ws2 @ ascii ''```'' @ ws3"
  have m: "rmatch fence_re (ascii ''```json'' @ ?rest) =
           space_star ?rest @
           (if take 3 (dropWhile isspace (ascii ''```json'' @ ?rest)) = ascii ''```''
            then [drop 3 (dropWhile isspace (ascii ''```json'' @ ?rest))] else [])"
    by (simp add: rmatch_fence_re) (simp add: ascii_fence_json)
  have hd: "space_star ?rest = dropWhile isspace ?rest # tl (space_star ?rest)"
    by (rule space_star_hd)
  have len: "length (dropWhile isspace ?rest) < length (ascii ''```json'' @ ?rest)"
    using length_dropWhile_le [of isspace ?rest] by (simp add: ascii_fence_json)
  have step: "re_sub_empty fence_re (ascii ''```json'' @ ?rest) =
              re_sub_empty fence_re (dropWhile isspace ?rest)"
  proof -
    obtain c cs where s: "ascii ''```json'' @ ?rest = c # cs"
      by (simp add: ascii_fence_json)
    have "rmatch fence_re (c # cs) = dropWhile isspace ?rest #
            (tl (space_star ?rest) @
             (if take 3 (dropWhile isspace (ascii ''```json'' @ ?rest)) = ascii ''```''
              then [drop 3 (dropWhile isspace (ascii ''```json'' @ ?rest))] else []))"
      using m hd unfolding s by (metis append_Cons)
    moreover have "length (dropWhile isspace ?rest) < length (c # cs)"
      using len unfolding s .
    ultimately show ?thesis unfolding s by simp
  qed
  have d: "dropWhile isspace ?rest = dropWhile isspace (body @ ws2 @ ascii ''```'' @ ws3)"
    using ws1 by (rule dropWhile_spaces_append)
  have "re_sub_empty fence_re (dropWhile isspace (body @ ws2 @ ascii ''```'' @ ws3)) =
        body @ ws3"
  proof (cases body)
    case Nil
    have "dropWhile isspace (ws2 @ ascii ''```'' @ ws3) = [] @ ascii ''```'' @ ws3"
      using ws2 by (simp add: dropWhile_spaces_append) (simp add: ascii_fence isspace_def)
    then show ?thesis
      using re_sub_closing_fence [of "[]" ws3] ws3 Nil by simp
  next
    case (Cons b bs)
    with ends have "\<not> isspace b" and "\<not> isspace (last body)" by auto
    then have "dropWhile isspace (body @ ws2 @ ascii ''```'' @ ws3) =
               body @ ws2 @ ascii ''```'' @ ws3"
      using Cons by simp
    then show ?thesis
      using re_sub_body_closing_fence [OF body _ ws2 ws3] \<open>\<not> isspace (last body)\<close> by simp
  qed
  with step d have "re_sub_empty fence_re (ascii ''```json'' @ ?rest) = body @ ws3" by simp
  then show ?thesis
    using ends ws3 by (simp add: clean_text_def strip_trailing)
qed

lemma clean_text_no_backtick: "96 \<notin> set t \<Longrightarrow> clean_text t = strip t"
  by (simp add: clean_text_def re_sub_no_backtick)

subsection \<open>The decoder refuses a text that starts with a backtick\<close>

lemma match_number_backtick: "match_number (96 # s) = None"
  by (simp add: match_number_def match_integer_def isdigit_def)

lemma scan_once_backtick: "scan_once (Suc n) (96 # s) = Inl JSONDecodeError"
  by (simp add: match_number_backtick)

lemma json_loads_backtick: "json_loads (96 # s) = Inl JSONDecodeError"
proof -
  have "2 * length (96 # s) + 2 = Suc (2 * length s + 3)" by simp
  then have "scan_once (2 * length (96 # s) + 2) (96 # s) = Inl JSONDecodeError"
    using scan_once_backtick by presburger
  then show ?thesis
    by (simp add: json_loads_def skip_ws_def json_ws_def)
qed

subsection \<open>The content list\<close>

lemma build_content_empty_iff:
  "build_content e msg ib = [] \<longleftrightarrow>
     (message_text msg = None \<or> message_text msg = Some []) \<and>
     (ib = None \<or> ib = Some [] \<or> (\<exists>b err. ib = Some b \<and> Image_open e b = Inl err))"
  by (auto simp: build_content_def split: option.splits sum.splits)

subsection \<open>The challenge built from a parsed reply\<close>

lemma challenge_keys_differ:
  "ascii ''incorrect_answers'' \<noteq> ascii ''correct_answer''"
  "ascii ''incorrect_answers'' \<noteq> ascii ''question''"
  "ascii ''correct_answer'' \<noteq> ascii ''question''"
  by (simp_all add: ascii_def)

lemma build_challenge_usable:
  assumes "map_of kvs (ascii ''question'') = Some q"
    and "map_of kvs (ascii ''correct_answer'') = Some c"
    and "map_of kvs (ascii ''incorrect_answers'') = Some (JArray xs)"
  shows "build_challenge e (JObject kvs) =
           Inr (JObject [(ascii ''question'', q), (ascii ''correct_answer'', c),
                         (ascii ''options'', JArray (shuffle (draws e) (xs @ [c])))])"
  using assms by (simp add: build_challenge_def getitem_def add_list_def)

lemma build_challenge_unusable:
  assumes "\<not> usable_challenge data"
  shows "\<exists>err. build_challenge e data = Inl err"
proof (cases data)
  case (JObject kvs)
  show ?thesis
  proof (cases "map_of kvs (ascii ''correct_answer'')")
    case None
    with JObject show ?thesis by (simp add: build_challenge_def getitem_def)
  next
    case c: (Some c)
    show ?thesis
    proof (cases "map_of kvs (ascii ''incorrect_answers'')")
      case None
      with JObject c show ?thesis by (simp add: build_challenge_def getitem_def)
    next
      case i: (Some i)
      show ?thesis
      proof (cases "\<exists>xs. i = JArray xs")
        case False
        then have "add_list i [c] = Inl TypeError"
          by (cases i) (simp_all add: add_list_def)
        with JObject c i show ?thesis by (simp add: build_challenge_def getitem_def)
      next
        case True
        then obtain xs where xs: "i = JArray xs" ..
        with assms JObject c i have "map_of kvs (ascii ''question'') = None"
          by (cases "map_of kvs (ascii ''question'')") (simp_all add: usable_challenge_def)
        with JObject c i xs show ?thesis
          by (simp add: build_challenge_def getitem_def add_list_def)
      qed
    qed
  qed
qed (simp_all add: build_challenge_def getitem_def)

lemma usable_challenge_builds:
  assumes "usable_challenge data"
  shows "\<exists>v. build_challenge e data = Inr v"
proof -
  from assms obtain kvs where data: "data = JObject kvs"
    by (cases data) (simp_all add: usable_challenge_def)
  from assms data obtain c where c: "map_of kvs (ascii ''correct_answer'') = Some c"
    by (cases "map_of kvs (ascii ''correct_answer'')") (simp_all add: usable_challenge_def)
  from assms data c obtain i where i: "map_of kvs (ascii ''incorrect_answers'') = Some i"
    by (cases "map_of kvs (ascii ''incorrect_answers'')") (simp_all add: usable_challenge_def)
  from assms data c i obtain xs where xs: "i = JArray xs"
    by (cases i) (simp_all add: usable_challenge_def)
  from assms data c i xs obtain q where q: "map_of kvs (ascii ''question'') = Some q"
    by (cases "map_of kvs (ascii ''question'')") (simp_all add: usable_challenge_def)
  from build_challenge_usable [OF q c i [unfolded xs]] data show ?thesis by blast
qed

subsection \<open>The decoder consumes text and never runs out of nested calls\<close>

lemma push_Inr: "push c r = Inr (str, rest) \<Longrightarrow> \<exists>str'. r = Inr (str', rest)"
  by (auto simp: push_def split: sum.splits)

lemma push_Inl: "push c r = Inl e \<Longrightarrow> r = Inl e"
  by (auto simp: push_def split: sum.splits)

lemma scanstring_shorter: "scanstring s = Inr (str, r) \<Longrightarrow> length r < length s"
proof (induction s arbitrary: str r rule: scanstring.induct)
  case 1
  then show ?case by simp
next
  case (2 c cs)
  show ?case
  proof (cases "c = 34")
    case True
    with "2.prems" show ?thesis by simp
  next
    case quote: False
    show ?thesis
    proof (cases "c = 92")
      case False
      with quote "2.prems" have "c \<ge> 32" and "push c (scanstring cs) = Inr (str, r)"
        by (auto split: if_splits)
      then obtain str' where "scanstring cs = Inr (str', r)"
        using push_Inr by blast
      with "2.IH"(5) [OF quote False] \<open>c \<ge> 32\<close> have "length r < length cs" by simp
      then show ?thesis by simp
    next
      case True
      show ?thesis
      proof (cases cs)
        case Nil
        with True quote "2.prems" show ?thesis by simp
      next
        case (Cons esc rest)
        show ?thesis
        proof (cases "esc = 117")
          case False
          with True quote Cons "2.prems" obtain ch where
            "backslash esc = Some ch" "push ch (scanstring rest) = Inr (str, r)"
            by (auto split: option.splits)
          then obtain str' where "scanstring rest = Inr (str', r)"
            using push_Inr by blast
          with "2.IH"(4) [OF quote True Cons False \<open>backslash esc = Some ch\<close>]
          have "length r < length rest" by simp
          with Cons show ?thesis by simp
        next
          case u: True
          from True quote Cons u "2.prems" obtain uni where uni: "decode_uXXXX rest = Some uni"
            by (auto split: option.splits)
          show ?thesis
          proof (cases "55296 \<le> uni \<and> uni \<le> 56319 \<and> take 2 (drop 4 rest) = [92, 117]")
            case False
            with True quote Cons u uni "2.prems" have
              "push uni (scanstring (drop 4 rest)) = Inr (str, r)"
              by (auto split: if_splits)
            then obtain str' where "scanstring (drop 4 rest) = Inr (str', r)"
              using push_Inr by blast
            with "2.IH"(3) [OF quote True Cons u uni False]
            have "length r < length (drop 4 rest)" by simp
            with Cons show ?thesis by simp
          next
            case pair: True
            from True quote Cons u uni pair "2.prems" obtain uni2 where
              uni2: "decode_uXXXX (drop 6 rest) = Some uni2"
              by (auto split: option.splits)
            show ?thesis
            proof (cases "56320 \<le> uni2 \<and> uni2 \<le> 57343")
              case low: True
              with True quote Cons u uni pair uni2 "2.prems" have
                "push (65536 + (uni - 55296) * 1024 + (uni2 - 56320))
                   (scanstring (drop 10 rest)) = Inr (str, r)"
                by simp
              then obtain str' where "scanstring (drop 10 rest) = Inr (str', r)"
                using push_Inr by blast
              with "2.IH"(1) [OF quote True Cons u uni pair uni2 low]
              have "length r < length (drop 10 rest)" by simp
              with Cons show ?thesis by simp
            next
              case False
              with True quote Cons u uni pair uni2 "2.prems" have
                "push uni (scanstring (drop 4 rest)) = Inr (str, r)"
                by simp
              then obtain str' where "scanstring (drop 4 rest) = Inr (str', r)"
                using push_Inr by blast
              with "2.IH"(2) [OF quote True Cons u uni pair uni2 False]
              have "length r < length (drop 4 rest)" by simp
              with Cons show ?thesis by simp
            qed
          qed
        qed
      qed
    qed
  qed
qed

lemma scanstring_error: "scanstring s = Inl e \<Longrightarrow> e = JSONDecodeError"
proof (induction s rule: scanstring.induct)
  case 1
  then show ?case by simp
next
  case (2 c cs)
  from "2.prems" show ?case
    by (auto split: if_splits list.splits option.splits dest!: push_Inl
        intro: "2.IH")
qed

lemma match_integer_nonempty: "match_integer s \<noteq> [] \<Longrightarrow> s \<noteq> []"
  by (auto simp: match_integer_def)

lemma match_number_shorter:
  assumes "match_number s = Some (v, r)"
  shows "length r < length s"
proof -
  from assms have i: "match_integer s \<noteq> []"
    by (auto simp: match_number_def Let_def split: if_splits)
  then have "s \<noteq> []" by (rule match_integer_nonempty)
  from assms i have "length r \<le> length s - length (match_integer s)"
    by (auto simp: match_number_def Let_def split: if_splits)
  moreover have "0 < length (match_integer s)" using i by simp
  moreover have "0 < length s" using \<open>s \<noteq> []\<close> by simp
  ultimately show ?thesis by linarith
qed

lemma skip_ws_le: "length (skip_ws s) \<le> length s"
  by (simp add: skip_ws_def length_dropWhile_le)

lemma skip_ws_Cons: "skip_ws s = d # r \<Longrightarrow> length r < length s"
  using skip_ws_le [of s] by simp

lemma scan_once_quote:
  "scan_once (Suc n) (34 # cs) =
     (case scanstring cs of Inl e \<Rightarrow> Inl e | Inr (str, rest) \<Rightarrow> Inr (JString str, rest))"
  by simp

lemma scan_once_brace:
  "scan_once (Suc n) (123 # cs) =
     (case skip_ws cs of
        [] \<Rightarrow> Inl JSONDecodeError
      | d # r \<Rightarrow>
          if d = 125 then Inr (JObject [], r)
          else if d \<noteq> 34 then Inl JSONDecodeError
          else (case object_members n r of
                  Inl e \<Rightarrow> Inl e
                | Inr (pairs, rest) \<Rightarrow> Inr (JObject (py_dict pairs), rest)))"
  by simp

lemma scan_once_bracket:
  "scan_once (Suc n) (91 # cs) =
     (case skip_ws cs of
        [] \<Rightarrow> Inl JSONDecodeError
      | d # r \<Rightarrow>
          if d = 93 then Inr (JArray [], r)
          else (case array_items n (d # r) of
                  Inl e \<Rightarrow> Inl e
                | Inr (vs, rest) \<Rightarrow> Inr (JArray vs, rest)))"
  by simp

lemma scan_once_atom:
  assumes "c \<noteq> 34" and "c \<noteq> 123" and "c \<noteq> 91"
  shows "(\<forall>e. scan_once (Suc n) (c # cs) = Inl e \<longrightarrow> e = JSONDecodeError) \<and>
         (\<forall>v r. scan_once (Suc n) (c # cs) = Inr (v, r) \<longrightarrow> length r < length (c # cs))"
proof -
  have number: "length r < length (c # cs)" if "match_number (c # cs) = Some (v, r)" for v r
    using that by (rule match_number_shorter)
  show ?thesis
  proof (cases "match_number (c # cs)")
    case None
    with assms show ?thesis by (simp add: less_Suc_eq_le)
  next
    case (Some p)
    obtain v r where "p = (v, r)" by (cases p)
    with Some number [of v r] assms show ?thesis by (simp add: less_Suc_eq_le)
  qed
qed

lemma scan_once_step:
  assumes arr_e: "\<And>s e. array_items n s = Inl e \<Longrightarrow> 2 * length s + 2 \<le> n \<Longrightarrow> e = JSONDecodeError"
    and arr_r: "\<And>s vs r. array_items n s = Inr (vs, r) \<Longrightarrow> 2 * length s + 2 \<le> n \<Longrightarrow>
           length r < length s"
    and obj_e: "\<And>s e. object_members n s = Inl e \<Longrightarrow> 2 * length s + 2 \<le> n \<Longrightarrow> e = JSONDecodeError"
    and obj_r: "\<And>s ps r. object_members n s = Inr (ps, r) \<Longrightarrow> 2 * length s + 2 \<le> n \<Longrightarrow>
           length r < length s"
    and fuel: "2 * length s + 1 \<le> Suc n"
  shows "(\<forall>e. scan_once (Suc n) s = Inl e \<longrightarrow> e = JSONDecodeError) \<and>
      (\<forall>v r. scan_once (Suc n) s = Inr (v, r) \<longrightarrow> length r < length s)"
proof (cases s)
  case Nil
  then show ?thesis by simp
next
  case (Cons c cs)
  have len: "2 * length cs + 2 \<le> n" using fuel Cons by simp
  consider (quote) "c = 34" | (brace) "c = 123" | (bracket) "c = 91"
    | (atom) "c \<noteq> 34" "c \<noteq> 123" "c \<noteq> 91"
    by blast
  then show ?thesis
  proof cases
    case quote
    show ?thesis
    proof (cases "scanstring cs")
      case (Inl e)
      with scanstring_error [of cs e] show ?thesis
        unfolding Cons quote scan_once_quote by simp
    next
      case (Inr p)
      obtain str rest where p: "p = (str, rest)" by (cases p)
      with Inr have "length rest < length cs" by (simp add: scanstring_shorter)
      with Inr p show ?thesis
        unfolding Cons quote scan_once_quote by simp
    qed
  next
    case brace
    show ?thesis
    proof (cases "skip_ws cs")
      case Nil
      then show ?thesis unfolding Cons brace scan_once_brace by simp
    next
      case ws: (Cons d r)
      then have r: "length r < length cs" by (rule skip_ws_Cons)
      then have f: "2 * length r + 2 \<le> n" using len by simp
      show ?thesis
      proof (cases "object_members n r")
        case (Inl e)
        with obj_e [of r e] f have "e = JSONDecodeError" by simp
        with ws r Inl show ?thesis unfolding Cons brace scan_once_brace by simp
      next
        case (Inr p)
        obtain ps rest where p: "p = (ps, rest)" by (cases p)
        with Inr obj_r [of r ps rest] f have "length rest < length r" by simp
        with ws r Inr p show ?thesis unfolding Cons brace scan_once_brace by simp
      qed
    qed
  next
    case bracket
    show ?thesis
    proof (cases "skip_ws cs")
      case Nil
      then show ?thesis unfolding Cons bracket scan_once_bracket by simp
    next
      case ws: (Cons d r)
      then have r: "length r < length cs" by (rule skip_ws_Cons)
      then have f: "2 * length (d # r) + 2 \<le> n" using len by simp
      show ?thesis
      proof (cases "array_items n (d # r)")
        case (Inl e)
        with arr_e [of "d # r" e] f have "e = JSONDecodeError" by simp
        with ws r Inl show ?thesis unfolding Cons bracket scan_once_bracket by simp
      next
        case (Inr p)
        obtain vs rest where p: "p = (vs, rest)" by (cases p)
        with Inr arr_r [of "d # r" vs rest] f have "length rest < length (d # r)" by simp
        with ws r Inr p show ?thesis unfolding Cons bracket scan_once_bracket by simp
      qed
    qed
  next
    case atom
    then show ?thesis unfolding Cons by (rule scan_once_atom)
  qed
qed

lemma array_items_step:
  assumes scan_e: "\<And>s e. scan_once n s = Inl e \<Longrightarrow> 2 * length s + 1 \<le> n \<Longrightarrow> e = JSONDecodeError"
    and scan_r: "\<And>s v r. scan_once n s = Inr (v, r) \<Longrightarrow> 2 * length s + 1 \<le> n \<Longrightarrow>
           length r < length s"
    and arr_e: "\<And>s e. array_items n s = Inl e \<Longrightarrow> 2 * length s + 2 \<le> n \<Longrightarrow> e = JSONDecodeError"
    and arr_r: "\<And>s vs r. array_items n s = Inr (vs, r) \<Longrightarrow> 2 * length s + 2 \<le> n \<Longrightarrow>
           length r < length s"
    and fuel: "2 * length s + 2 \<le> Suc n"
  shows "(\<forall>e. array_items (Suc n) s = Inl e \<longrightarrow> e = JSONDecodeError) \<and>
      (\<forall>vs r. array_items (Suc n) s = Inr (vs, r) \<longrightarrow> length r < length s)"
proof (cases "scan_once n s")
  case (Inl e)
  with scan_e [of s e] fuel show ?thesis by simp
next
  case (Inr p)
  obtain v r where p: "p = (v, r)" by (cases p)
  with Inr scan_r [of s v r] fuel have r: "length r < length s" by simp
  show ?thesis
  proof (cases "skip_ws r")
    case Nil
    with Inr p show ?thesis by simp
  next
    case ws: (Cons d r')
    then have r': "length r' < length r" by (rule skip_ws_Cons)
    have "length (skip_ws r') \<le> length r'" by (rule skip_ws_le)
    with r r' fuel have less: "length (skip_ws r') < length s"
      and f: "2 * length (skip_ws r') + 2 \<le> n"
      by simp_all
    show ?thesis
    proof (cases "array_items n (skip_ws r')")
      case items: (Inl e)
      with arr_e [of "skip_ws r'" e] f have "e = JSONDecodeError" by simp
      with Inr p ws r r' items show ?thesis by simp
    next
      case items: (Inr pi)
      obtain vs rest where pi: "pi = (vs, rest)" by (cases pi)
      with items arr_r [of "skip_ws r'" vs rest] f have "length rest < length (skip_ws r')"
        by simp
      with Inr p ws r r' items pi less show ?thesis by simp
    qed
  qed
qed


lemma object_members_step:
  assumes scan_e: "\<And>s e. scan_once n s = Inl e \<Longrightarrow> 2 * length s + 1 \<le> n \<Longrightarrow> e = JSONDecodeError"
    and scan_r: "\<And>s v r. scan_once n s = Inr (v, r) \<Longrightarrow> 2 * length s + 1 \<le> n \<Longrightarrow>
           length r < length s"
    and obj_e: "\<And>s e. object_members n s = Inl e \<Longrightarrow> 2 * length s + 2 \<le> n \<Longrightarrow> e = JSONDecodeError"
    and obj_r: "\<And>s ps r. object_members n s = Inr (ps, r) \<Longrightarrow> 2 * length s + 2 \<le> n \<Longrightarrow>
           length r < length s"
    and fuel: "2 * length s + 2 \<le> Suc n"
  shows "(\<forall>e. object_members (Suc n) s = Inl e \<longrightarrow> e = JSONDecodeError) \<and>
      (\<forall>ps r. object_members (Suc n) s = Inr (ps, r) \<longrightarrow> length r < length s)"
proof (cases "scanstring s")
  case (Inl e)
  with scanstring_error [of s e] show ?thesis by simp
next
  case (Inr p)
  obtain key r where p: "p = (key, r)" by (cases p)
  with Inr have r: "length r < length s" by (simp add: scanstring_shorter)
  show ?thesis
  proof (cases "skip_ws r")
    case Nil
    with Inr p show ?thesis by simp
  next
    case ws: (Cons d r1)
    then have r1: "length r1 < length r" by (rule skip_ws_Cons)
    have w1: "length (skip_ws r1) \<le> length r1" by (rule skip_ws_le)
    show ?thesis
    proof (cases "d = 58")
      case False
      with Inr p ws show ?thesis by simp
    next
      case colon: True
      have f1: "2 * length (skip_ws r1) + 1 \<le> n" using fuel r r1 w1 by simp
      show ?thesis
      proof (cases "scan_once n (skip_ws r1)")
        case (Inl e)
        with scan_e [of "skip_ws r1" e] f1 Inr p ws colon show ?thesis by simp
      next
        case val: (Inr pv)
        obtain v r2 where pv: "pv = (v, r2)" by (cases pv)
        with val scan_r [of "skip_ws r1" v r2] f1 have r2: "length r2 < length (skip_ws r1)"
          by simp
        show ?thesis
        proof (cases "skip_ws r2")
          case Nil
          with Inr p ws colon val pv show ?thesis by simp
        next
          case ws2: (Cons d2 r3)
          then have r3: "length r3 < length r2" by (rule skip_ws_Cons)
          show ?thesis
          proof (cases "skip_ws r3")
            case Nil
            with Inr p ws colon val pv ws2 r r1 w1 r2 r3 show ?thesis by simp
          next
            case ws3: (Cons q r4)
            then have r4: "length r4 < length r3" by (rule skip_ws_Cons)
            with r r1 w1 r2 r3 fuel have less: "length r4 < length s"
              and f: "2 * length r4 + 2 \<le> n"
              by simp_all
            show ?thesis
            proof (cases "object_members n r4")
              case more: (Inl e)
              with obj_e [of r4 e] f have "e = JSONDecodeError" by simp
              with Inr p ws colon val pv ws2 ws3 r r1 w1 r2 r3 more show ?thesis by simp
            next
              case more: (Inr pm)
              obtain ps rest where pm: "pm = (ps, rest)" by (cases pm)
              with more obj_r [of r4 ps rest] f have "length rest < length r4" by simp
              with Inr p ws colon val pv ws2 ws3 r r1 w1 r2 r3 more pm less show ?thesis
                by simp
            qed
          qed
        qed
      qed
    qed
  qed
qed


text \<open>
  With \<open>n\<close> nested calls left, a value, the items of an array and the members of an
  object are read from a text of length below \<open>n div 2\<close> without using the calls up, and
  each consumes text.
\<close>

lemma decoder_fuel:
  "(\<forall>s. 2 * length s + 1 \<le> n \<longrightarrow>
        (\<forall>e. scan_once n s = Inl e \<longrightarrow> e = JSONDecodeError) \<and>
        (\<forall>v r. scan_once n s = Inr (v, r) \<longrightarrow> length r < length s)) \<and>
   (\<forall>s. 2 * length s + 2 \<le> n \<longrightarrow>
        (\<forall>e. array_items n s = Inl e \<longrightarrow> e = JSONDecodeError) \<and>
        (\<forall>vs r. array_items n s = Inr (vs, r) \<longrightarrow> length r < length s)) \<and>
   (\<forall>s. 2 * length s + 2 \<le> n \<longrightarrow>
        (\<forall>e. object_members n s = Inl e \<longrightarrow> e = JSONDecodeError) \<and>
        (\<forall>ps r. object_members n s = Inr (ps, r) \<longrightarrow> length r < length s))"
proof (induction n)
  case 0
  then show ?case by simp
next
  case (Suc n)
  then have scan_e: "\<And>s e. scan_once n s = Inl e \<Longrightarrow> 2 * length s + 1 \<le> n \<Longrightarrow>
                e = JSONDecodeError"
    and scan_r: "\<And>s v r. scan_once n s = Inr (v, r) \<Longrightarrow> 2 * length s + 1 \<le> n \<Longrightarrow>
                 length r < length s"
    and arr_e: "\<And>s e. array_items n s = Inl e \<Longrightarrow> 2 * length s + 2 \<le> n \<Longrightarrow>
                e = JSONDecodeError"
    and arr_r: "\<And>s vs r. array_items n s = Inr (vs, r) \<Longrightarrow> 2 * length s + 2 \<le> n \<Longrightarrow>
                length r < length s"
    and obj_e: "\<And>s e. object_members n s = Inl e \<Longrightarrow> 2 * length s + 2 \<le> n \<Longrightarrow>
                e = JSONDecodeError"
    and obj_r: "\<And>s ps r. object_members n s = Inr (ps, r) \<Longrightarrow> 2 * length s + 2 \<le> n \<Longrightarrow>
                length r < length s"
    by blast+
  have scan: "(\<forall>e. scan_once (Suc n) s = Inl e \<longrightarrow> e = JSONDecodeError) \<and>
        (\<forall>v r. scan_once (Suc n) s = Inr (v, r) \<longrightarrow> length r < length s)"
    if "2 * length s + 1 \<le> Suc n" for s
    using arr_e arr_r obj_e obj_r that by (rule scan_once_step)
  have arr: "(\<forall>e. array_items (Suc n) s = Inl e \<longrightarrow> e = JSONDecodeError) \<and>
        (\<forall>vs r. array_items (Suc n) s = Inr (vs, r) \<longrightarrow> length r < length s)"
    if "2 * length s + 2 \<le> Suc n" for s
    using scan_e scan_r arr_e arr_r that by (rule array_items_step)
  have obj: "(\<forall>e. object_members (Suc n) s = Inl e \<longrightarrow> e = JSONDecodeError) \<and>
        (\<forall>ps r. object_members (Suc n) s = Inr (ps, r) \<longrightarrow> length r < length s)"
    if "2 * length s + 2 \<le> Suc n" for s
    using scan_e scan_r obj_e obj_r that by (rule object_members_step)
  from scan arr obj show ?case by blast
qed

text \<open>\<open>json_loads\<close> raises nothing but \<^verbatim>\<open>JSONDecodeError\<close>.\<close>

lemma json_loads_error: "json_loads s = Inl e \<Longrightarrow> e = JSONDecodeError"
proof -
  assume a: "json_loads s = Inl e"
  have "2 * length (skip_ws s) + 1 \<le> 2 * length s + 2"
    using skip_ws_le [of s] by simp
  with decoder_fuel [of "2 * length s + 2"] have
    "\<forall>e. scan_once (2 * length s + 2) (skip_ws s) = Inl e \<longrightarrow> e = JSONDecodeError"
    by blast
  with a show ?thesis
    by (auto simp: json_loads_def split: if_splits sum.splits)
qed

subsection \<open>The concrete replies, decoded\<close>

lemma loads_fenced_verdict:
  "json_loads (clean_text fenced_verdict) = Inr (verdict True [36785, 39554])"
  by code_simp

lemma loads_partial_verdict:
  "json_loads (clean_text partial_verdict) = Inr (JObject [(ascii ''is_spam'', JBool True)])"
  by code_simp

lemma loads_three_distractors:
  "json_loads (clean_text (challenge_text three_distractors)) =
     Inr (JObject
           [(ascii ''question'', JString [81]), (ascii ''correct_answer'', JString [65]),
            (ascii ''incorrect_answers'', JArray [JString [66], JString [67], JString [68]])])"
  by code_simp

lemma loads_two_distractors:
  "json_loads (clean_text (challenge_text two_distractors)) =
     Inr (JObject
           [(ascii ''question'', JString [81]), (ascii ''correct_answer'', JString [65]),
            (ascii ''incorrect_answers'', JArray [JString [66], JString [67]])])"
  by code_simp

lemma loads_truncated_challenge:
  "json_loads (clean_text truncated_challenge) = Inl JSONDecodeError"
  by code_simp

lemma loads_unblock_text:
  "json_loads unblock_text =
     Inr (JObject [(ascii ''question'', JString (ascii ''2+2?'')),
                   (ascii ''answer'', JString [52])])"
  by code_simp

lemma configured_service:
  "filter_model (GeminiService_init configured) = Some (GenerativeModel (ascii ''gemini-2.5-flash''))"
  "verification_model (GeminiService_init configured) =
     Some (GenerativeModel (ascii ''gemini-2.5-flash-lite''))"
  "ENABLE_AI_FILTER configured"
  by (simp_all add: GeminiService_init_def configured_def ascii_def)

lemma replying_simps:
  "generate_content_async (replying r) m req = r"
  "Image_open (replying r) b = Inr (Image b)"
  "loads (replying r) = json_loads"
  "draws (replying r) = (\<lambda>k. 0)"
  by (simp_all add: replying_def)

lemma reply_simps:
  "candidates (reply t) = [Candidate []]"
  "response_text (reply t) = t"
  by (simp_all add: reply_def)

lemma sample_content: "build_content e sample_message None = [Text (ascii ''some text'')]"
  by (simp add: build_content_def sample_message_def ascii_def)

lemma loads_surrogate_reply: "json_loads (clean_text surrogate_reply) = Inr (JString [55296])"
  by code_simp

text \<open>
  The opening fence is recognised only where the text starts with it. Behind leading
  whitespace, the second alternative of the pattern deletes the whitespace and the three
  backticks, the word \<^verbatim>\<open>json\<close> stays in the text, and the decoder refuses it.
\<close>

lemma clean_text_leading_newline:
  "clean_text (10 # fenced_verdict) =
     ascii ''json'' @ [10, 123, 34] @ ascii ''is_spam'' @ [34] @ ascii '': true, '' @ [34] @
     ascii ''reason'' @ [34, 58, 32, 34, 36785, 39554, 34, 125]"
  by code_simp

lemma loads_leading_newline:
  "json_loads (clean_text (10 # fenced_verdict)) = Inl JSONDecodeError"
  by code_simp

section \<open>The claims\<close>

subsection \<open>C1: exceptions and result shapes\<close>

text \<open>
  C1 as stated fails in both of its parts. \<^verbatim>\<open>analyze_message\<close> returns the parsed reply
  without looking at its keys, so the reply \<^verbatim>\<open>{"is_spam": true}\<close> comes back as an object
  that is no verdict. And when the text accessor of the reply to the challenge prompt
  raises a \<^verbatim>\<open>ValueError\<close>, the handler of \<^verbatim>\<open>generate_verification_challenge\<close> reads the
  accessor again inside \<^verbatim>\<open>hasattr\<close>, and that \<^verbatim>\<open>ValueError\<close> leaves the method.
\<close>

theorem unchecked_shape_and_escaping_error:
  "fst (analyze_message configured (replying (Inr (reply (Inr partial_verdict))))
          (GeminiService_init configured) sample_message None) =
     Returned (JObject [(ascii ''is_spam'', JBool True)]) \<and>
   \<not> is_verdict (JObject [(ascii ''is_spam'', JBool True)]) \<and>
   fst (generate_verification_challenge configured (replying (Inr (reply (Inl ValueError))))
          (GeminiService_init configured)) = Raised ValueError"
proof -
  have "partial_verdict \<noteq> []"
    by (simp add: partial_verdict_def)
  then have "fst (analyze_message configured (replying (Inr (reply (Inr partial_verdict))))
          (GeminiService_init configured) sample_message None) =
     Returned (JObject [(ascii ''is_spam'', JBool True)])"
    by (simp add: analyze_message_def configured_service replying_simps reply_simps
        sample_content analyze_reply_def loads_partial_verdict print_fails_def Let_def)
  moreover have "\<not> is_verdict (JObject [(ascii ''is_spam'', JBool True)])"
    by (simp add: is_verdict_def ascii_def)
  moreover have
    "fst (generate_verification_challenge configured
            (replying (Inr (reply (Inl ValueError)))) (GeminiService_init configured)) =
       Raised ValueError"
    by (simp add: generate_verification_challenge_def configured_service replying_simps
        reply_simps challenge_reply_def challenge_except_def)
  ultimately show ?thesis by blast
qed

text \<open>
  C1, amended. For every input and every behaviour of the remote model,
  \<^verbatim>\<open>generate_unblock_question\<close> lets no exception escape; \<^verbatim>\<open>analyze_message\<close> lets none escape
  where the text accessor of a reply with candidates returns or raises a \<^verbatim>\<open>ValueError\<close>;
  \<^verbatim>\<open>generate_verification_challenge\<close> lets none escape where the text accessor returns or
  raises an \<^verbatim>\<open>AttributeError\<close>. What is returned is one of the fixed fallback objects,
  each fully populated and of its documented shape, or else: from \<^verbatim>\<open>analyze_message\<close> and
  \<^verbatim>\<open>generate_unblock_question\<close> the value parsed from the reply, as it is; from
  \<^verbatim>\<open>generate_verification_challenge\<close> an object with the keys \<^verbatim>\<open>question\<close>,
  \<^verbatim>\<open>correct_answer\<close> and \<^verbatim>\<open>options\<close>, the last a list.
\<close>

theorem no_exception_escapes:
  "(\<exists>v. fst (generate_unblock_question cfg e self) = Returned v \<and>
        (v = unblock_fallback \<or>
         (\<exists>vm response t.
            generate_content_async e vm (Prompt unblock_prompt) = Inr response \<and>
            response_text response = Inr t \<and> loads e t = Inr v))) \<and>
   ((\<forall>m req response err.
        generate_content_async e m req = Inr response \<and> candidates response \<noteq> [] \<and>
        response_text response = Inl err \<longrightarrow> isinstance_ValueError err) \<longrightarrow>
    (\<exists>v. fst (analyze_message cfg e self msg image_bytes) = Returned v \<and>
         (v = filter_disabled \<or> v = no_content \<or> v = moderation_failed \<or>
          v = analysis_failed \<or>
          (\<exists>fm req response t.
             generate_content_async e fm req = Inr response \<and>
             response_text response = Inr t \<and> loads e (clean_text t) = Inr v)))) \<and>
   ((\<forall>m req response err.
        generate_content_async e m req = Inr response \<and> response_text response = Inl err \<longrightarrow>
        err = AttributeError) \<longrightarrow>
    (\<exists>v. fst (generate_verification_challenge cfg e self) = Returned v \<and>
         (v = challenge_fallback \<or>
          (\<exists>q c opts.
             v = JObject [(ascii ''question'', q), (ascii ''correct_answer'', c),
                          (ascii ''options'', JArray opts)])))) \<and>
   is_verdict filter_disabled \<and> is_verdict no_content \<and> is_verdict moderation_failed \<and>
   is_verdict analysis_failed \<and> is_unblock_question unblock_fallback \<and>
   is_challenge challenge_fallback"
proof -
  have unblock:
    "\<exists>v. fst (generate_unblock_question cfg e self) = Returned v \<and>
        (v = unblock_fallback \<or>
         (\<exists>vm response t.
            generate_content_async e vm (Prompt unblock_prompt) = Inr response \<and>
            response_text response = Inr t \<and> loads e t = Inr v))"
    by (auto simp: generate_unblock_question_def split: option.splits sum.splits)
  have analyze:
    "\<exists>v. fst (analyze_message cfg e self msg image_bytes) = Returned v \<and>
         (v = filter_disabled \<or> v = no_content \<or> v = moderation_failed \<or>
          v = analysis_failed \<or>
          (\<exists>fm req response t.
             generate_content_async e fm req = Inr response \<and>
             response_text response = Inr t \<and> loads e (clean_text t) = Inr v))"
    if acc: "\<forall>m req response err.
        generate_content_async e m req = Inr response \<and> candidates response \<noteq> [] \<and>
        response_text response = Inl err \<longrightarrow> isinstance_ValueError err"
  proof (cases "filter_model self")
    case None
    then show ?thesis by (simp add: analyze_message_def)
  next
    case (Some fm)
    let ?content = "build_content e msg image_bytes"
    let ?req = "Contents (?content @ [Text (join [10] prompt_parts)])"
    show ?thesis
    proof (cases "ENABLE_AI_FILTER cfg \<and> ?content \<noteq> []")
      case False
      with Some show ?thesis by (auto simp: analyze_message_def)
    next
      case True
      show ?thesis
      proof (cases "generate_content_async e fm ?req")
        case (Inl err)
        with Some True show ?thesis
          by (simp add: analyze_message_def analyze_except_def Let_def)
      next
        case (Inr response)
        show ?thesis
        proof (cases "analyze_reply e response")
          case ok: (Inr v)
          then have "v = moderation_failed \<or>
                     (\<exists>t. response_text response = Inr t \<and> loads e (clean_text t) = Inr v)"
            by (auto simp: analyze_reply_def split: if_splits sum.splits)
          with Some True Inr ok show ?thesis
            by (auto simp: analyze_message_def Let_def)
        next
          case failed: (Inl err)
          have "analyze_except (Some response) = Returned analysis_failed"
          proof (cases "response_text response")
            case (Inr t)
            then show ?thesis by (simp add: analyze_except_def)
          next
            case raised: (Inl err')
            show ?thesis
            proof (cases "candidates response = []")
              case True
              then show ?thesis by (simp add: analyze_except_def)
            next
              case False
              with acc Inr raised have "isinstance_ValueError err'" by blast
              with raised show ?thesis by (simp add: analyze_except_def)
            qed
          qed
          with Some True Inr failed show ?thesis
            by (simp add: analyze_message_def Let_def)
        qed
      qed
    qed
  qed
  have challenge:
    "\<exists>v. fst (generate_verification_challenge cfg e self) = Returned v \<and>
         (v = challenge_fallback \<or>
          (\<exists>q c opts.
             v = JObject [(ascii ''question'', q), (ascii ''correct_answer'', c),
                          (ascii ''options'', JArray opts)]))"
    if acc: "\<forall>m req response err.
        generate_content_async e m req = Inr response \<and> response_text response = Inl err \<longrightarrow>
        err = AttributeError"
  proof (cases "verification_model self")
    case None
    then show ?thesis by (simp add: generate_verification_challenge_def)
  next
    case (Some vm)
    show ?thesis
    proof (cases "generate_content_async e vm (Prompt challenge_prompt)")
      case (Inl err)
      with Some show ?thesis
        by (simp add: generate_verification_challenge_def challenge_except_def)
    next
      case (Inr response)
      show ?thesis
      proof (cases "challenge_reply e response")
        case ok: (Inr v)
        then have "\<exists>q c opts.
             v = JObject [(ascii ''question'', q), (ascii ''correct_answer'', c),
                          (ascii ''options'', JArray opts)]"
          by (auto simp: challenge_reply_def build_challenge_def Let_def
              split: if_splits sum.splits)
        with Some Inr ok show ?thesis
          by (simp add: generate_verification_challenge_def)
      next
        case failed: (Inl err)
        have "challenge_except (Some response) = Returned challenge_fallback"
        proof (cases "response_text response")
          case (Inr t)
          then show ?thesis by (simp add: challenge_except_def)
        next
          case raised: (Inl err')
          with acc Inr have "err' = AttributeError" by blast
          with raised show ?thesis by (simp add: challenge_except_def)
        qed
        with Some Inr failed show ?thesis
          by (simp add: generate_verification_challenge_def)
      qed
    qed
  qed
  have shapes:
    "is_verdict filter_disabled \<and> is_verdict no_content \<and> is_verdict moderation_failed \<and>
     is_verdict analysis_failed \<and> is_unblock_question unblock_fallback \<and>
     is_challenge challenge_fallback"
    by (simp add: is_verdict_def is_unblock_question_def is_challenge_def filter_disabled_def
        no_content_def moderation_failed_def analysis_failed_def unblock_fallback_def
        challenge_fallback_def verdict_def ascii_def)
  from unblock analyze challenge shapes show ?thesis by blast
qed

theorem no_exception_escapes_witness:
  "(\<exists>v. fst (generate_unblock_question configured (replying (Inr (reply (Inl ValueError))))
             (GeminiService_init configured)) = Returned v) \<and>
   (\<exists>v. fst (analyze_message configured (replying (Inr (reply (Inl ValueError))))
             (GeminiService_init configured) sample_message None) = Returned v) \<and>
   (\<exists>v. fst (generate_verification_challenge configured
             (replying (Inr (reply (Inl AttributeError))))
             (GeminiService_init configured)) = Returned v)"
proof -
  note a = no_exception_escapes [of configured "replying (Inr (reply (Inl ValueError)))"
      "GeminiService_init configured" sample_message None]
  note b = no_exception_escapes [of configured "replying (Inr (reply (Inl AttributeError)))"
      "GeminiService_init configured" sample_message None]
  have "\<forall>m req response err.
          generate_content_async (replying (Inr (reply (Inl ValueError)))) m req = Inr response \<and>
          candidates response \<noteq> [] \<and> response_text response = Inl err \<longrightarrow>
          isinstance_ValueError err"
    by (auto simp: replying_simps reply_simps isinstance_ValueError_def)
  moreover have "\<forall>m req response err.
          generate_content_async (replying (Inr (reply (Inl AttributeError)))) m req =
            Inr response \<and> response_text response = Inl err \<longrightarrow> err = AttributeError"
    by (auto simp: replying_simps reply_simps)
  ultimately show ?thesis using a b by blast
qed

subsection \<open>C2: when the challenge falls back\<close>

text \<open>
  C2 as stated fails for a list \<^verbatim>\<open>incorrect_answers\<close> whose length is not three: nothing
  is raised, and the two distractors of this reply come back with the correct answer as
  three options. It also fails for an exception of the text accessor that is not an
  \<^verbatim>\<open>AttributeError\<close>: the handler reads the accessor again and the exception leaves it.
\<close>

theorem challenge_two_distractors_accepted:
  "fst (generate_verification_challenge configured
          (replying (Inr (reply (Inr (challenge_text two_distractors)))))
          (GeminiService_init configured)) =
     Returned (JObject [(ascii ''question'', JString [81]),
                        (ascii ''correct_answer'', JString [65]),
                        (ascii ''options'', JArray [JString [67], JString [65], JString [66]])]) \<and>
   fst (generate_verification_challenge configured
          (replying (Inr (reply (Inr (challenge_text two_distractors)))))
          (GeminiService_init configured)) \<noteq> Returned challenge_fallback \<and>
   fst (generate_verification_challenge configured
          (replying (Inr (reply (Inl OtherException)))) (GeminiService_init configured)) =
     Raised OtherException"
proof -
  have "challenge_text two_distractors \<noteq> []"
    by (simp add: challenge_text_def)
  moreover have "shuffle (\<lambda>k. 0) [JString [66], JString [67], JString [65]] =
                 [JString [67], JString [65], JString [66]]"
    by code_simp
  moreover have
    "build_challenge (replying (Inr (reply (Inr (challenge_text two_distractors)))))
       (JObject [(ascii ''question'', JString [81]), (ascii ''correct_answer'', JString [65]),
                 (ascii ''incorrect_answers'', JArray [JString [66], JString [67]])]) =
     Inr (JObject [(ascii ''question'', JString [81]),
                   (ascii ''correct_answer'', JString [65]),
                   (ascii ''options'',
                    JArray (shuffle (\<lambda>k. 0) ([JString [66], JString [67]] @ [JString [65]])))])"
    by (rule build_challenge_usable [where e = "replying _", unfolded replying_simps])
      (simp_all add: challenge_keys_differ challenge_keys_differ [symmetric])
  ultimately have
    "challenge_reply (replying (Inr (reply (Inr (challenge_text two_distractors)))))
       (reply (Inr (challenge_text two_distractors))) =
     Inr (JObject [(ascii ''question'', JString [81]),
                   (ascii ''correct_answer'', JString [65]),
                   (ascii ''options'', JArray [JString [67], JString [65], JString [66]])])"
    by (simp add: challenge_reply_def replying_simps reply_simps loads_two_distractors)
  then have
    "fst (generate_verification_challenge configured
            (replying (Inr (reply (Inr (challenge_text two_distractors)))))
            (GeminiService_init configured)) =
       Returned (JObject [(ascii ''question'', JString [81]),
                          (ascii ''correct_answer'', JString [65]),
                          (ascii ''options'', JArray [JString [67], JString [65], JString [66]])])"
    by (simp add: generate_verification_challenge_def configured_service replying_simps)
  moreover have
    "fst (generate_verification_challenge configured
            (replying (Inr (reply (Inl OtherException)))) (GeminiService_init configured)) =
       Raised OtherException"
    by (simp add: generate_verification_challenge_def configured_service replying_simps
        reply_simps challenge_reply_def challenge_except_def)
  ultimately show ?thesis
    by (simp add: challenge_fallback_def)
qed

text \<open>
  C2, amended. \<^verbatim>\<open>generate_verification_challenge\<close> returns exactly the fallback
  \<^verbatim>\<open>{question: "1 + 1 = ?", correct_answer: "2", options: ["1", "2", "3", "4"]}\<close>, in this
  order, when the remote call raises any exception, and, for a reply whose text accessor
  returns, when the text is empty, when \<^verbatim>\<open>json.loads\<close> raises any exception on the cleaned
  text (malformed JSON), or when the parsed value is not an object that has the keys
  \<^verbatim>\<open>question\<close>, \<^verbatim>\<open>correct_answer\<close> and \<^verbatim>\<open>incorrect_answers\<close> with a list under the last. The
  length of that list is not checked: for a list of any length the options returned are
  a permutation of its entries and the correct answer.
\<close>

theorem challenge_falls_back:
  assumes "verification_model self = Some vm"
    and "generate_content_async e vm (Prompt challenge_prompt) = outcome"
  shows
    "((\<exists>err. outcome = Inl err) \<or>
      (\<exists>response t. outcome = Inr response \<and> response_text response = Inr t \<and>
         (t = [] \<or> (\<exists>err. loads e (clean_text t) = Inl err) \<or>
          (\<exists>data. loads e (clean_text t) = Inr data \<and> \<not> usable_challenge data))) \<longrightarrow>
      fst (generate_verification_challenge cfg e self) =
        Returned
          (JObject
            [(ascii ''question'', JString (ascii ''1 + 1 = ?'')),
             (ascii ''correct_answer'', JString (ascii ''2'')),
             (ascii ''options'',
              JArray [JString (ascii ''1''), JString (ascii ''2''), JString (ascii ''3''),
                      JString (ascii ''4'')])])) \<and>
     (\<forall>response t kvs q c xs.
        outcome = Inr response \<and> response_text response = Inr t \<and> t \<noteq> [] \<and>
        loads e (clean_text t) = Inr (JObject kvs) \<and>
        map_of kvs (ascii ''question'') = Some q \<and>
        map_of kvs (ascii ''correct_answer'') = Some c \<and>
        map_of kvs (ascii ''incorrect_answers'') = Some (JArray xs) \<longrightarrow>
        (\<exists>opts.
           fst (generate_verification_challenge cfg e self) =
             Returned (JObject [(ascii ''question'', q), (ascii ''correct_answer'', c),
                                (ascii ''options'', JArray opts)]) \<and>
           mset opts = mset (xs @ [c]) \<and> length opts = length xs + 1))"
proof -
  let ?run =
    "case outcome of
       Inl err \<Rightarrow> challenge_except None
     | Inr response \<Rightarrow>
         (case challenge_reply e response of
            Inr result \<Rightarrow> Returned result
          | Inl err \<Rightarrow> challenge_except (Some response))"
  have run: "fst (generate_verification_challenge cfg e self) = ?run"
    using assms by (simp add: generate_verification_challenge_def)
  have unusable: "\<exists>err. challenge_reply e response = Inl err"
    if "response_text response = Inr t"
      and "t = [] \<or> (\<exists>err. loads e (clean_text t) = Inl err) \<or>
           (\<exists>data. loads e (clean_text t) = Inr data \<and> \<not> usable_challenge data)"
    for response t
    using that build_challenge_unusable [of _ e]
    by (auto simp: challenge_reply_def)
  have fallback: "?run = Returned challenge_fallback"
    if bad: "(\<exists>err. outcome = Inl err) \<or>
      (\<exists>response t. outcome = Inr response \<and> response_text response = Inr t \<and>
         (t = [] \<or> (\<exists>err. loads e (clean_text t) = Inl err) \<or>
          (\<exists>data. loads e (clean_text t) = Inr data \<and> \<not> usable_challenge data)))"
    using bad
  proof
    assume "\<exists>err. outcome = Inl err"
    then show ?thesis by (auto simp: challenge_except_def)
  next
    assume "\<exists>response t. outcome = Inr response \<and> response_text response = Inr t \<and>
            (t = [] \<or> (\<exists>err. loads e (clean_text t) = Inl err) \<or>
             (\<exists>data. loads e (clean_text t) = Inr data \<and> \<not> usable_challenge data))"
    then obtain response t where r: "outcome = Inr response" "response_text response = Inr t"
      and unparsed: "t = [] \<or> (\<exists>err. loads e (clean_text t) = Inl err) \<or>
             (\<exists>data. loads e (clean_text t) = Inr data \<and> \<not> usable_challenge data)"
      by blast
    from unusable [OF r(2) unparsed] obtain err where "challenge_reply e response = Inl err" ..
    with r show ?thesis by (simp add: challenge_except_def)
  qed
  have built:
    "\<exists>opts. ?run =
       Returned (JObject [(ascii ''question'', q), (ascii ''correct_answer'', c),
                          (ascii ''options'', JArray opts)]) \<and>
       mset opts = mset (xs @ [c]) \<and> length opts = length xs + 1"
    if "outcome = Inr response" and "response_text response = Inr t" and "t \<noteq> []"
      and "loads e (clean_text t) = Inr (JObject kvs)"
      and "map_of kvs (ascii ''question'') = Some q"
      and "map_of kvs (ascii ''correct_answer'') = Some c"
      and "map_of kvs (ascii ''incorrect_answers'') = Some (JArray xs)"
    for response t kvs q c xs
  proof -
    have "challenge_reply e response =
            Inr (JObject [(ascii ''question'', q), (ascii ''correct_answer'', c),
                          (ascii ''options'', JArray (shuffle (draws e) (xs @ [c])))])"
      using that(2-7) by (simp add: challenge_reply_def build_challenge_usable)
    with that(1) have
      "?run = Returned (JObject [(ascii ''question'', q), (ascii ''correct_answer'', c),
                                 (ascii ''options'', JArray (shuffle (draws e) (xs @ [c])))])"
      by simp
    moreover have "mset (shuffle (draws e) (xs @ [c])) = mset (xs @ [c])"
      by (rule mset_shuffle)
    moreover have "length (shuffle (draws e) (xs @ [c])) = length xs + 1"
      by (simp add: length_shuffle)
    ultimately show ?thesis by blast
  qed
  from fallback built show ?thesis
    unfolding run challenge_fallback_def by blast
qed

theorem challenge_falls_back_witness:
  "fst (generate_verification_challenge configured (replying (Inl OtherException))
          (GeminiService_init configured)) = Returned challenge_fallback \<and>
   fst (generate_verification_challenge configured (replying (Inr (reply (Inr []))))
          (GeminiService_init configured)) = Returned challenge_fallback \<and>
   fst (generate_verification_challenge configured
          (replying (Inr (reply (Inr truncated_challenge))))
          (GeminiService_init configured)) = Returned challenge_fallback \<and>
   fst (generate_verification_challenge configured
          (replying (Inr (reply (Inr partial_verdict))))
          (GeminiService_init configured)) = Returned challenge_fallback \<and>
   (\<exists>opts. fst (generate_verification_challenge configured
                 (replying (Inr (reply (Inr (challenge_text two_distractors)))))
                 (GeminiService_init configured)) =
             Returned (JObject [(ascii ''question'', JString [81]),
                                (ascii ''correct_answer'', JString [65]),
                                (ascii ''options'', JArray opts)]) \<and>
           mset opts = mset [JString [66], JString [67], JString [65]] \<and> length opts = 3)"
proof -
  let ?self = "GeminiService_init configured"
  let ?vm = "GenerativeModel (ascii ''gemini-2.5-flash-lite'')"
  have vm: "verification_model ?self = Some ?vm"
    by (rule configured_service)
  have unusable: "\<not> usable_challenge (JObject [(ascii ''is_spam'', JBool True)])"
    by (simp add: usable_challenge_def ascii_def)
  have a: "fst (generate_verification_challenge configured (replying (Inl OtherException))
             ?self) = Returned challenge_fallback"
    using challenge_falls_back [OF vm, of "replying (Inl OtherException)"
        "Inl OtherException" configured]
    by (simp add: replying_simps challenge_fallback_def)
  have b: "fst (generate_verification_challenge configured (replying (Inr (reply (Inr []))))
             ?self) = Returned challenge_fallback"
    using challenge_falls_back [OF vm, of "replying (Inr (reply (Inr [])))"
        "Inr (reply (Inr []))" configured]
    by (simp add: replying_simps reply_simps challenge_fallback_def)
  have c: "fst (generate_verification_challenge configured
             (replying (Inr (reply (Inr truncated_challenge)))) ?self) =
           Returned challenge_fallback"
    using challenge_falls_back [OF vm, of "replying (Inr (reply (Inr truncated_challenge)))"
        "Inr (reply (Inr truncated_challenge))" configured]
    by (simp add: replying_simps reply_simps loads_truncated_challenge challenge_fallback_def)
  have d: "fst (generate_verification_challenge configured
             (replying (Inr (reply (Inr partial_verdict)))) ?self) =
           Returned challenge_fallback"
    using challenge_falls_back [OF vm, of "replying (Inr (reply (Inr partial_verdict)))"
        "Inr (reply (Inr partial_verdict))" configured] unusable
    by (simp add: replying_simps reply_simps loads_partial_verdict challenge_fallback_def)
  have nonempty: "challenge_text two_distractors \<noteq> []"
    by (simp add: challenge_text_def)
  have keys:
    "map_of [(ascii ''question'', JString [81]), (ascii ''correct_answer'', JString [65]),
             (ascii ''incorrect_answers'', JArray [JString [66], JString [67]])]
       (ascii ''question'') = Some (JString [81])"
    "map_of [(ascii ''question'', JString [81]), (ascii ''correct_answer'', JString [65]),
             (ascii ''incorrect_answers'', JArray [JString [66], JString [67]])]
       (ascii ''correct_answer'') = Some (JString [65])"
    "map_of [(ascii ''question'', JString [81]), (ascii ''correct_answer'', JString [65]),
             (ascii ''incorrect_answers'', JArray [JString [66], JString [67]])]
       (ascii ''incorrect_answers'') = Some (JArray [JString [66], JString [67]])"
    by (simp_all add: challenge_keys_differ challenge_keys_differ [symmetric])
  have e: "\<exists>opts. fst (generate_verification_challenge configured
                 (replying (Inr (reply (Inr (challenge_text two_distractors))))) ?self) =
             Returned (JObject [(ascii ''question'', JString [81]),
                                (ascii ''correct_answer'', JString [65]),
                                (ascii ''options'', JArray opts)]) \<and>
           mset opts = mset [JString [66], JString [67], JString [65]] \<and> length opts = 3"
  proof -
    let ?e = "replying (Inr (reply (Inr (challenge_text two_distractors))))"
    have gen: "generate_content_async ?e ?vm (Prompt challenge_prompt) =
               Inr (reply (Inr (challenge_text two_distractors)))"
      by (simp add: replying_simps)
    have parsed: "loads ?e (clean_text (challenge_text two_distractors)) =
        Inr (JObject [(ascii ''question'', JString [81]),
                      (ascii ''correct_answer'', JString [65]),
                      (ascii ''incorrect_answers'', JArray [JString [66], JString [67]])])"
      by (simp add: replying_simps loads_two_distractors)
    have accessor: "response_text (reply (Inr (challenge_text two_distractors))) =
                Inr (challenge_text two_distractors)"
      by (simp add: reply_simps)
    from challenge_falls_back [OF vm gen, of configured] gen accessor nonempty parsed keys
    obtain opts where
      "fst (generate_verification_challenge configured ?e ?self) =
         Returned (JObject [(ascii ''question'', JString [81]),
                            (ascii ''correct_answer'', JString [65]),
                            (ascii ''options'', JArray opts)])"
      and "mset opts = mset ([JString [66], JString [67]] @ [JString [65]])"
      and "length opts = length [JString [66], JString [67]] + 1"
      by blast
    then show ?thesis by auto
  qed
  from a b c d e show ?thesis by blast
qed

subsection \<open>C3: the reply is cleaned, parsed and passed through\<close>

text \<open>
  C3. For every reply with at least one candidate and a text that is not empty,
  \<^verbatim>\<open>analyze_message\<close> is to strip the surrounding code-fence markup from the text, parse
  what is left and return the parsed value as it is. The code misses two cases. Where
  whitespace precedes the opening fence, the alternative \<^verbatim>\<open>\s*```\<close> of the pattern deletes
  the whitespace and the three backticks, the word \<^verbatim>\<open>json\<close> stays in the text, parsing
  fails, and the reply \<^verbatim>\<open>\n```json\n{"is_spam": true, "reason": "<U+8FB1 U+9A82>"}\n```\<close> gives
  \<^verbatim>\<open>{is_spam: false, reason: "Analysis failed"}\<close>, while the same reply without the leading
  newline gives \<^verbatim>\<open>{is_spam: true, reason: "<U+8FB1 U+9A82>"}\<close>. And where the parsed value is
  a string that holds a lone surrogate, as for the reply \<^verbatim>\<open>"\ud800"\<close>, the print of line 71
  raises inside the \<^verbatim>\<open>try\<close> block and \<^verbatim>\<open>Analysis failed\<close> is returned in place of the parsed
  value.
\<close>

theorem analyze_message_misses_fence_and_print:
  "clean_text (10 # fenced_verdict) =
     ascii ''json'' @ [10, 123, 34] @ ascii ''is_spam'' @ [34] @ ascii '': true, '' @ [34] @
     ascii ''reason'' @ [34, 58, 32, 34, 36785, 39554, 34, 125] \<and>
   fst (analyze_message configured (replying (Inr (reply (Inr (10 # fenced_verdict)))))
          (GeminiService_init configured) sample_message None) =
     Returned (verdict False (ascii ''Analysis failed'')) \<and>
   fst (analyze_message configured (replying (Inr (reply (Inr fenced_verdict))))
          (GeminiService_init configured) sample_message None) =
     Returned (verdict True [36785, 39554]) \<and>
   json_loads (clean_text surrogate_reply) = Inr (JString [55296]) \<and>
   fst (analyze_message configured (replying (Inr (reply (Inr surrogate_reply))))
          (GeminiService_init configured) sample_message None) =
     Returned (verdict False (ascii ''Analysis failed''))"
proof -
  have run: "fst (analyze_message configured (replying (Inr (reply (Inr t))))
               (GeminiService_init configured) sample_message None) =
             (case analyze_reply (replying (Inr (reply (Inr t)))) (reply (Inr t)) of
                Inr result \<Rightarrow> Returned result
              | Inl err \<Rightarrow> Returned analysis_failed)" for t
    by (simp add: analyze_message_def configured_service replying_simps reply_simps
        sample_content analyze_except_def Let_def split: sum.splits)
  have led: "analyze_reply (replying (Inr (reply (Inr (10 # fenced_verdict)))))
               (reply (Inr (10 # fenced_verdict))) = Inl JSONDecodeError"
    by (simp add: analyze_reply_def replying_simps reply_simps loads_leading_newline)
  have "fenced_verdict \<noteq> []"
    by (simp add: fenced_verdict_def)
  then have fenced: "analyze_reply (replying (Inr (reply (Inr fenced_verdict))))
               (reply (Inr fenced_verdict)) = Inr (verdict True [36785, 39554])"
    by (simp add: analyze_reply_def replying_simps reply_simps loads_fenced_verdict
        print_fails_def verdict_def)
  have "surrogate_reply \<noteq> []"
    by (simp add: surrogate_reply_def)
  then have lone: "analyze_reply (replying (Inr (reply (Inr surrogate_reply))))
               (reply (Inr surrogate_reply)) = Inl UnicodeEncodeError"
    by (simp add: analyze_reply_def replying_simps reply_simps loads_surrogate_reply
        print_fails_def surrogate_def)
  show ?thesis
    unfolding run led fenced lone
    by (simp add: clean_text_leading_newline loads_surrogate_reply analysis_failed_def)
qed

text \<open>
  What the code does for a reply with at least one candidate and a text that is not
  empty: it deletes every match of the pattern, strips the text, parses it and, unless
  the print of line 71 fails, returns the parsed value as it is, whatever its keys are
  (the reply \<^verbatim>\<open>{"is_spam": true}\<close> is returned as the one-key object). A reply that starts
  with the opening fence and is one fenced block (opening fence, whitespace, a body
  without backticks and without whitespace at its ends, whitespace, closing fence,
  whitespace) is cleaned to its body, and a text without backticks is only stripped.
\<close>

lemma analyze_message_parsed_reply:
  assumes "filter_model self = Some fm" and "ENABLE_AI_FILTER cfg"
    and "build_content e msg image_bytes \<noteq> []"
    and "generate_content_async e fm
           (Contents (build_content e msg image_bytes @ [Text (join [10] prompt_parts)])) =
         Inr response"
    and "candidates response \<noteq> []" and "response_text response = Inr t" and "t \<noteq> []"
  shows
    "(\<forall>v. loads e (clean_text t) = Inr v \<and> \<not> print_fails v \<longrightarrow>
        fst (analyze_message cfg e self msg image_bytes) = Returned v) \<and>
     (\<forall>v. loads e (clean_text t) = Inr v \<and> print_fails v \<longrightarrow>
        fst (analyze_message cfg e self msg image_bytes) = Returned analysis_failed) \<and>
     (\<forall>ws1 ws2 ws3 body.
        t = ascii ''```json'' @ ws1 @ body @ ws2 @ ascii ''```'' @ ws3 \<and>
        (\<forall>c\<in>set ws1. isspace c) \<and> (\<forall>c\<in>set ws2. isspace c) \<and>
        (\<forall>c\<in>set ws3. isspace c) \<and> 96 \<notin> set body \<and>
        (body = [] \<or> (\<not> isspace (hd body) \<and> \<not> isspace (last body))) \<longrightarrow>
        clean_text t = body) \<and>
     (96 \<notin> set t \<longrightarrow> clean_text t = strip t) \<and>
     (loads e = json_loads \<and> t = partial_verdict \<longrightarrow>
        fst (analyze_message cfg e self msg image_bytes) =
          Returned (JObject [(ascii ''is_spam'', JBool True)]))"
proof -
  have parsed: "fst (analyze_message cfg e self msg image_bytes) = Returned v"
    if "loads e (clean_text t) = Inr v" and "\<not> print_fails v" for v
    using assms that by (simp add: analyze_message_def analyze_reply_def Let_def)
  have unprinted: "fst (analyze_message cfg e self msg image_bytes) = Returned analysis_failed"
    if "loads e (clean_text t) = Inr v" and "print_fails v" for v
    using assms that
    by (simp add: analyze_message_def analyze_reply_def analyze_except_def Let_def)
  have fenced: "clean_text t = body"
    if "t = ascii ''```json'' @ ws1 @ body @ ws2 @ ascii ''```'' @ ws3"
      and "\<forall>c\<in>set ws1. isspace c" and "\<forall>c\<in>set ws2. isspace c"
      and "\<forall>c\<in>set ws3. isspace c" and "96 \<notin> set body"
      and "body = [] \<or> (\<not> isspace (hd body) \<and> \<not> isspace (last body))"
    for ws1 ws2 ws3 body
    unfolding that(1) using that(2-6) by (rule clean_text_fenced)
  have bare: "clean_text t = strip t" if "96 \<notin> set t"
    using that by (rule clean_text_no_backtick)
  have ex: "fst (analyze_message cfg e self msg image_bytes) =
               Returned (JObject [(ascii ''is_spam'', JBool True)])"
    if "loads e = json_loads" and "t = partial_verdict"
    using that by (intro parsed) (simp_all add: loads_partial_verdict print_fails_def)
  from parsed unprinted fenced bare ex show ?thesis by blast
qed

subsection \<open>C4: a reply without candidates\<close>

text \<open>
  C4. In a configured call with the flag on and a content list that is not empty: if the
  remote call returns a reply that has no candidates, \<^verbatim>\<open>analyze_message\<close> returns
  \<^verbatim>\<open>{is_spam: true}\<close> with the fixed moderation-failed reason. The verdict is returned by
  the \<^verbatim>\<open>try\<close> block itself: nothing was raised.
\<close>

theorem analyze_message_no_candidates:
  assumes "filter_model self = Some fm" and "ENABLE_AI_FILTER cfg"
    and "build_content e msg image_bytes \<noteq> []"
    and "generate_content_async e fm
           (Contents (build_content e msg image_bytes @ [Text (join [10] prompt_parts)])) =
         Inr response"
    and "candidates response = []"
  shows "analyze_reply e response = Inr (verdict True moderation_failed_reason) \<and>
         fst (analyze_message cfg e self msg image_bytes) =
           Returned (verdict True moderation_failed_reason)"
  using assms
  by (simp add: analyze_message_def analyze_reply_def moderation_failed_def Let_def)

theorem analyze_message_no_candidates_witness:
  "fst (analyze_message configured
          (replying (Inr \<lparr>candidates = [], response_text = Inl ValueError\<rparr>))
          (GeminiService_init configured) sample_message None) =
     Returned
       (JObject
         [(ascii ''is_spam'', JBool True),
          (ascii ''reason'',
           JString [20869, 23481, 23457, 26597, 22833, 36133, 65292, 21487, 33021, 21253,
                    21547, 19981, 24403, 20869, 23481, 12290])])"
  using analyze_message_no_candidates [of "GeminiService_init configured"
      "GenerativeModel (ascii ''gemini-2.5-flash'')" configured
      "replying (Inr \<lparr>candidates = [], response_text = Inl ValueError\<rparr>)" sample_message None
      "\<lparr>candidates = [], response_text = Inl ValueError\<rparr>"]
  by (simp add: configured_service replying_simps sample_content verdict_def
      moderation_failed_reason_def)

subsection \<open>C5: failures in the try block of \<^verbatim>\<open>analyze_message\<close>\<close>

text \<open>
  C5 as stated fails where the text accessor raises an exception that is not a
  \<^verbatim>\<open>ValueError\<close>: the handler reads the accessor again and catches only \<^verbatim>\<open>ValueError\<close>, so
  the exception of the second read leaves \<^verbatim>\<open>analyze_message\<close>.
\<close>

theorem analyze_message_text_error_escapes:
  "fst (analyze_message configured (replying (Inr (reply (Inl OtherException))))
          (GeminiService_init configured) sample_message None) = Raised OtherException"
  by (simp add: analyze_message_def configured_service replying_simps reply_simps
      sample_content analyze_reply_def analyze_except_def isinstance_ValueError_def Let_def)

text \<open>
  C5, amended. In a configured call with the flag on and a content list that is not
  empty, \<^verbatim>\<open>analyze_message\<close> returns \<^verbatim>\<open>{is_spam: false, reason: "Analysis failed"}\<close> when the
  remote call raises any exception, and, for a reply with candidates, when the text
  accessor raises a \<^verbatim>\<open>ValueError\<close>, when the text is empty, or when \<^verbatim>\<open>json.loads\<close> raises
  any exception on the cleaned text.
\<close>

theorem analyze_message_fails_open:
  assumes "filter_model self = Some fm" and "ENABLE_AI_FILTER cfg"
    and "build_content e msg image_bytes \<noteq> []"
    and "generate_content_async e fm
           (Contents (build_content e msg image_bytes @ [Text (join [10] prompt_parts)])) =
         outcome"
    and "(\<exists>err. outcome = Inl err) \<or>
         (\<exists>response. outcome = Inr response \<and> candidates response \<noteq> [] \<and>
            ((\<exists>err. response_text response = Inl err \<and> isinstance_ValueError err) \<or>
             response_text response = Inr [] \<or>
             (\<exists>t err. response_text response = Inr t \<and> loads e (clean_text t) = Inl err)))"
  shows "fst (analyze_message cfg e self msg image_bytes) =
           Returned (verdict False (ascii ''Analysis failed''))"
proof -
  from assms(5) have
    "(case outcome of
        Inl err \<Rightarrow> analyze_except None
      | Inr response \<Rightarrow>
          (case analyze_reply e response of
             Inr result \<Rightarrow> Returned result
           | Inl err \<Rightarrow> analyze_except (Some response))) = Returned analysis_failed"
    by (auto simp: analyze_reply_def analyze_except_def isinstance_ValueError_def)
  with assms(1-4) show ?thesis
    by (simp add: analyze_message_def Let_def analysis_failed_def)
qed

theorem analyze_message_fails_open_witness:
  "fst (analyze_message configured (replying (Inl OtherException))
          (GeminiService_init configured) sample_message None) =
     Returned (verdict False (ascii ''Analysis failed'')) \<and>
   fst (analyze_message configured (replying (Inr (reply (Inl ValueError))))
          (GeminiService_init configured) sample_message None) =
     Returned (verdict False (ascii ''Analysis failed'')) \<and>
   fst (analyze_message configured (replying (Inr (reply (Inr []))))
          (GeminiService_init configured) sample_message None) =
     Returned (verdict False (ascii ''Analysis failed'')) \<and>
   fst (analyze_message configured (replying (Inr (reply (Inr truncated_challenge))))
          (GeminiService_init configured) sample_message None) =
     Returned (verdict False (ascii ''Analysis failed''))"
  using
    analyze_message_fails_open [of "GeminiService_init configured"
      "GenerativeModel (ascii ''gemini-2.5-flash'')" configured
      "replying (Inl OtherException)" sample_message None "Inl OtherException"]
    analyze_message_fails_open [of "GeminiService_init configured"
      "GenerativeModel (ascii ''gemini-2.5-flash'')" configured
      "replying (Inr (reply (Inl ValueError)))" sample_message None "Inr (reply (Inl ValueError))"]
    analyze_message_fails_open [of "GeminiService_init configured"
      "GenerativeModel (ascii ''gemini-2.5-flash'')" configured
      "replying (Inr (reply (Inr [])))" sample_message None "Inr (reply (Inr []))"]
    analyze_message_fails_open [of "GeminiService_init configured"
      "GenerativeModel (ascii ''gemini-2.5-flash'')" configured
      "replying (Inr (reply (Inr truncated_challenge)))" sample_message None
      "Inr (reply (Inr truncated_challenge))"]
  by (simp add: configured_service replying_simps reply_simps sample_content
      isinstance_ValueError_def loads_truncated_challenge)

subsection \<open>C6: the options of a challenge\<close>

text \<open>
  C6. When the reply to the challenge prompt parses to an object with the keys
  \<^verbatim>\<open>question\<close>, \<^verbatim>\<open>correct_answer\<close> and a three-element list \<^verbatim>\<open>incorrect_answers\<close>, the returned
  \<^verbatim>\<open>options\<close> are a permutation of the three incorrect answers and the correct answer:
  four entries, the same multiset, nothing added or dropped (so without duplicates
  where the four values differ). The returned \<^verbatim>\<open>correct_answer\<close> and \<^verbatim>\<open>question\<close> are the
  parsed ones, and \<^verbatim>\<open>correct_answer\<close> is among the options.
\<close>

theorem challenge_options_permutation:
  assumes "verification_model self = Some vm"
    and "generate_content_async e vm (Prompt challenge_prompt) = Inr response"
    and "response_text response = Inr t" and "t \<noteq> []"
    and "loads e (clean_text t) = Inr (JObject kvs)"
    and "map_of kvs (ascii ''question'') = Some q"
    and "map_of kvs (ascii ''correct_answer'') = Some c"
    and "map_of kvs (ascii ''incorrect_answers'') = Some (JArray [a1, a2, a3])"
  shows "\<exists>opts.
           fst (generate_verification_challenge cfg e self) =
             Returned (JObject [(ascii ''question'', q), (ascii ''correct_answer'', c),
                                (ascii ''options'', JArray opts)]) \<and>
           mset opts = mset [a1, a2, a3, c] \<and> length opts = 4 \<and> c \<in> set opts \<and>
           (distinct [a1, a2, a3, c] \<longrightarrow> distinct opts)"
proof -
  let ?opts = "shuffle (draws e) [a1, a2, a3, c]"
  have "challenge_reply e response =
          Inr (JObject [(ascii ''question'', q), (ascii ''correct_answer'', c),
                        (ascii ''options'', JArray ?opts)])"
    using assms(3-8) by (simp add: challenge_reply_def build_challenge_usable)
  with assms(1,2) have
    "fst (generate_verification_challenge cfg e self) =
       Returned (JObject [(ascii ''question'', q), (ascii ''correct_answer'', c),
                          (ascii ''options'', JArray ?opts)])"
    by (simp add: generate_verification_challenge_def)
  moreover have "mset ?opts = mset [a1, a2, a3, c]" by (rule mset_shuffle)
  moreover have "length ?opts = 4" by (simp add: length_shuffle)
  moreover have "c \<in> set ?opts" by (simp add: set_shuffle)
  moreover have "distinct [a1, a2, a3, c] \<longrightarrow> distinct ?opts"
    by (simp only: distinct_shuffle) simp
  ultimately show ?thesis by blast
qed

theorem challenge_options_permutation_witness:
  "\<exists>opts.
     fst (generate_verification_challenge configured
            (replying (Inr (reply (Inr (challenge_text three_distractors)))))
            (GeminiService_init configured)) =
       Returned (JObject [(ascii ''question'', JString [81]),
                          (ascii ''correct_answer'', JString [65]),
                          (ascii ''options'', JArray opts)]) \<and>
     mset opts = mset [JString [66], JString [67], JString [68], JString [65]] \<and>
     length opts = 4 \<and> JString [65] \<in> set opts \<and> distinct opts"
  using challenge_options_permutation [of "GeminiService_init configured"
      "GenerativeModel (ascii ''gemini-2.5-flash-lite'')"
      "replying (Inr (reply (Inr (challenge_text three_distractors))))"
      "reply (Inr (challenge_text three_distractors))" "challenge_text three_distractors"
      "[(ascii ''question'', JString [81]), (ascii ''correct_answer'', JString [65]),
        (ascii ''incorrect_answers'', JArray [JString [66], JString [67], JString [68]])]"
      "JString [81]" "JString [65]" "JString [66]" "JString [67]" "JString [68]" configured]
  by (simp add: configured_service replying_simps reply_simps loads_three_distractors)
    (simp add: challenge_text_def ascii_def)

subsection \<open>C7: the filter is off\<close>

text \<open>
  C7. Whatever the text and the image bytes are: if the filter model handle is absent (no
  API credential was configured) or the flag \<^verbatim>\<open>ENABLE_AI_FILTER\<close> is off, then
  \<^verbatim>\<open>analyze_message\<close> returns \<^verbatim>\<open>{is_spam: false, reason: "AI filter disabled"}\<close> and makes no
  remote call.
\<close>

theorem analyze_message_disabled:
  "(filter_model self = None \<or> \<not> ENABLE_AI_FILTER cfg \<longrightarrow>
      analyze_message cfg e self msg image_bytes =
        (Returned (verdict False (ascii ''AI filter disabled'')), [])) \<and>
   (GEMINI_API_KEY cfg = None \<or> GEMINI_API_KEY cfg = Some [] \<longrightarrow>
      analyze_message cfg e (GeminiService_init cfg) msg image_bytes =
        (Returned (verdict False (ascii ''AI filter disabled'')), []))"
  by (auto simp: analyze_message_def GeminiService_init_def filter_disabled_def
      split: option.splits)

theorem analyze_message_disabled_witness:
  "analyze_message (configured\<lparr>ENABLE_AI_FILTER := False\<rparr>) (replying (Inl OtherException))
     (GeminiService_init configured) \<lparr>message_text = Some (ascii ''buy now!!!'')\<rparr> None =
     (Returned (verdict False (ascii ''AI filter disabled'')), []) \<and>
   analyze_message (configured\<lparr>GEMINI_API_KEY := None\<rparr>) (replying (Inl OtherException))
     (GeminiService_init (configured\<lparr>GEMINI_API_KEY := None\<rparr>))
     \<lparr>message_text = Some (ascii ''buy now!!!'')\<rparr> (Some [255, 216]) =
     (Returned (verdict False (ascii ''AI filter disabled'')), [])"
  using analyze_message_disabled [of "GeminiService_init configured"
      "configured\<lparr>ENABLE_AI_FILTER := False\<rparr>" "replying (Inl OtherException)"
      "\<lparr>message_text = Some (ascii ''buy now!!!'')\<rparr>" None]
    analyze_message_disabled [of "GeminiService_init (configured\<lparr>GEMINI_API_KEY := None\<rparr>)"
      "configured\<lparr>GEMINI_API_KEY := None\<rparr>" "replying (Inl OtherException)"
      "\<lparr>message_text = Some (ascii ''buy now!!!'')\<rparr>" "Some [255, 216]"]
  by (simp add: configured_def)

subsection \<open>C8: nothing to analyze\<close>

text \<open>
  C8. In a configured call with the flag on: if the message has no text or an empty one,
  and the image bytes are absent, empty or do not open as an image (the failure is
  dropped, not raised), then the content list is empty and \<^verbatim>\<open>analyze_message\<close> returns
  \<^verbatim>\<open>{is_spam: false, reason: "No content to analyze"}\<close> without a remote call.
\<close>

theorem analyze_message_no_content:
  assumes "filter_model self = Some fm" and "ENABLE_AI_FILTER cfg"
    and "message_text msg = None \<or> message_text msg = Some []"
    and "image_bytes = None \<or> image_bytes = Some [] \<or>
         (\<exists>b err. image_bytes = Some b \<and> Image_open e b = Inl err)"
  shows "build_content e msg image_bytes = [] \<and>
         analyze_message cfg e self msg image_bytes =
           (Returned (verdict False (ascii ''No content to analyze'')), [])"
proof -
  from assms(3,4) have "build_content e msg image_bytes = []"
    by (simp add: build_content_empty_iff)
  with assms(1,2) show ?thesis
    by (simp add: analyze_message_def no_content_def)
qed

theorem analyze_message_no_content_witness:
  "build_content ((replying (Inl OtherException))\<lparr>Image_open := \<lambda>b. Inl OtherException\<rparr>)
     \<lparr>message_text = Some []\<rparr> (Some [71, 73, 70]) = [] \<and>
   analyze_message configured
     ((replying (Inl OtherException))\<lparr>Image_open := \<lambda>b. Inl OtherException\<rparr>)
     (GeminiService_init configured) \<lparr>message_text = Some []\<rparr> (Some [71, 73, 70]) =
     (Returned (verdict False (ascii ''No content to analyze'')), [])"
  using analyze_message_no_content [of "GeminiService_init configured"
      "GenerativeModel (ascii ''gemini-2.5-flash'')" configured "\<lparr>message_text = Some []\<rparr>"
      "Some [71, 73, 70]"
      "(replying (Inl OtherException))\<lparr>Image_open := \<lambda>b. Inl OtherException\<rparr>"]
  by (simp add: configured_service)

subsection \<open>C9: the unblock question\<close>

text \<open>
  C9. \<^verbatim>\<open>generate_unblock_question\<close> returns the fixed capital-of-China question with the
  answer Beijing when the verification handle is absent (then without a remote call),
  when the remote call or the text accessor raises, and when \<^verbatim>\<open>json.loads\<close> raises. The
  text of the reply is given to \<^verbatim>\<open>json.loads\<close> as it is, with no fence-stripping, so a
  reply that starts with a code fence does not parse and gives the fallback; a reply
  that is valid JSON is returned as parsed.
\<close>

theorem generate_unblock_question_behaviour:
  "(verification_model self = None \<longrightarrow>
      generate_unblock_question cfg e self = (Returned unblock_fallback, [])) \<and>
   (\<forall>vm. verification_model self = Some vm \<longrightarrow>
      (\<forall>err. generate_content_async e vm (Prompt unblock_prompt) = Inl err \<longrightarrow>
         fst (generate_unblock_question cfg e self) = Returned unblock_fallback) \<and>
      (\<forall>response. generate_content_async e vm (Prompt unblock_prompt) = Inr response \<longrightarrow>
         (\<forall>err. response_text response = Inl err \<longrightarrow>
            fst (generate_unblock_question cfg e self) = Returned unblock_fallback) \<and>
         (\<forall>t. response_text response = Inr t \<longrightarrow>
            (\<forall>err. loads e t = Inl err \<longrightarrow>
               fst (generate_unblock_question cfg e self) = Returned unblock_fallback) \<and>
            (\<forall>v. loads e t = Inr v \<longrightarrow>
               fst (generate_unblock_question cfg e self) = Returned v) \<and>
            (loads e = json_loads \<and> take 3 t = ascii ''```'' \<longrightarrow>
               fst (generate_unblock_question cfg e self) = Returned unblock_fallback))))"
proof -
  have "json_loads t = Inl JSONDecodeError" if "take 3 t = ascii ''```''" for t
  proof -
    from that obtain s where "t = 96 # s"
      by (cases t) (simp_all add: ascii_fence)
    then show ?thesis by (simp add: json_loads_backtick)
  qed
  then show ?thesis
    by (auto simp: generate_unblock_question_def)
qed

theorem generate_unblock_question_behaviour_witness:
  "generate_unblock_question (configured\<lparr>GEMINI_API_KEY := None\<rparr>)
     (replying (Inr (reply (Inr unblock_text))))
     (GeminiService_init (configured\<lparr>GEMINI_API_KEY := None\<rparr>)) =
     (Returned
        (JObject
          [(ascii ''question'',
            JString [20013, 22269, 30340, 39318, 37117, 26159, 21738, 37324, 65311]),
           (ascii ''answer'', JString [21271, 20140])]), []) \<and>
   fst (generate_unblock_question configured (replying (Inl OtherException))
          (GeminiService_init configured)) = Returned unblock_fallback \<and>
   fst (generate_unblock_question configured (replying (Inr (reply (Inl ValueError))))
          (GeminiService_init configured)) = Returned unblock_fallback \<and>
   fst (generate_unblock_question configured
          (replying (Inr (reply (Inr (ascii ''```json'' @ [10] @ unblock_text @ [10] @
                                      ascii ''```'')))))
          (GeminiService_init configured)) = Returned unblock_fallback \<and>
   fst (generate_unblock_question configured (replying (Inr (reply (Inr unblock_text))))
          (GeminiService_init configured)) =
     Returned (JObject [(ascii ''question'', JString (ascii ''2+2?'')),
                        (ascii ''answer'', JString [52])])"
  using
    generate_unblock_question_behaviour [of
      "GeminiService_init (configured\<lparr>GEMINI_API_KEY := None\<rparr>)"
      "configured\<lparr>GEMINI_API_KEY := None\<rparr>" "replying (Inr (reply (Inr unblock_text)))"]
    generate_unblock_question_behaviour [of "GeminiService_init configured" configured
      "replying (Inl OtherException)"]
    generate_unblock_question_behaviour [of "GeminiService_init configured" configured
      "replying (Inr (reply (Inl ValueError)))"]
    generate_unblock_question_behaviour [of "GeminiService_init configured" configured
      "replying (Inr (reply (Inr (ascii ''```json'' @ [10] @ unblock_text @ [10] @
                                  ascii ''```''))))"]
    generate_unblock_question_behaviour [of "GeminiService_init configured" configured
      "replying (Inr (reply (Inr unblock_text)))"]
  by (simp add: configured_service replying_simps reply_simps loads_unblock_text
      ascii_fence ascii_fence_json)
    (simp add: GeminiService_init_def configured_def unblock_fallback_def)

subsection \<open>C10: the flag gates only \<^verbatim>\<open>analyze_message\<close>\<close>

text \<open>
  C10. \<^verbatim>\<open>generate_unblock_question\<close> and \<^verbatim>\<open>generate_verification_challenge\<close> do not depend on
  the flag \<^verbatim>\<open>ENABLE_AI_FILTER\<close>: with any value of the flag they return the same result and
  make the same remote calls. With a credential configured they send their prompt to
  the verification model also when the flag is off, where \<^verbatim>\<open>analyze_message\<close> makes no
  call. Whatever the flag is, a reply that parses is answered with the value of the
  model: \<^verbatim>\<open>generate_unblock_question\<close> returns the parsed value, and
  \<^verbatim>\<open>generate_verification_challenge\<close> returns the parsed question and correct answer with
  the shuffled options. A fallback is returned only in the unconfigured state or after a
  failure (the remote call or the text accessor raises, the text is empty or does not
  parse, the parsed value is not usable), or where the reply itself spells the fallback
  out; never because the flag is off.
\<close>

theorem generators_ignore_filter_flag:
  "(\<forall>b. generate_unblock_question (cfg\<lparr>ENABLE_AI_FILTER := b\<rparr>) e self =
          generate_unblock_question cfg e self \<and>
        generate_verification_challenge (cfg\<lparr>ENABLE_AI_FILTER := b\<rparr>) e self =
          generate_verification_challenge cfg e self \<and>
        GeminiService_init (cfg\<lparr>ENABLE_AI_FILTER := b\<rparr>) = GeminiService_init cfg) \<and>
   (GEMINI_API_KEY cfg \<noteq> None \<and> GEMINI_API_KEY cfg \<noteq> Some [] \<and> \<not> ENABLE_AI_FILTER cfg \<longrightarrow>
      snd (generate_unblock_question cfg e (GeminiService_init cfg)) =
        [(GenerativeModel (ascii ''gemini-2.5-flash-lite''), Prompt unblock_prompt)] \<and>
      snd (generate_verification_challenge cfg e (GeminiService_init cfg)) =
        [(GenerativeModel (ascii ''gemini-2.5-flash-lite''), Prompt challenge_prompt)] \<and>
      snd (analyze_message cfg e (GeminiService_init cfg) msg image_bytes) = []) \<and>
   (\<forall>vm response t v.
      verification_model self = Some vm \<and>
      generate_content_async e vm (Prompt unblock_prompt) = Inr response \<and>
      response_text response = Inr t \<and> loads e t = Inr v \<longrightarrow>
      fst (generate_unblock_question cfg e self) = Returned v) \<and>
   (\<forall>vm response t kvs q c xs.
      verification_model self = Some vm \<and>
      generate_content_async e vm (Prompt challenge_prompt) = Inr response \<and>
      response_text response = Inr t \<and> t \<noteq> [] \<and>
      loads e (clean_text t) = Inr (JObject kvs) \<and>
      map_of kvs (ascii ''question'') = Some q \<and>
      map_of kvs (ascii ''correct_answer'') = Some c \<and>
      map_of kvs (ascii ''incorrect_answers'') = Some (JArray xs) \<longrightarrow>
      fst (generate_verification_challenge cfg e self) =
        Returned (JObject [(ascii ''question'', q), (ascii ''correct_answer'', c),
                           (ascii ''options'', JArray (shuffle (draws e) (xs @ [c])))])) \<and>
   (fst (generate_unblock_question cfg e self) = Returned unblock_fallback \<longrightarrow>
      verification_model self = None \<or>
      (\<exists>vm. verification_model self = Some vm \<and>
         ((\<exists>err. generate_content_async e vm (Prompt unblock_prompt) = Inl err) \<or>
          (\<exists>response.
             generate_content_async e vm (Prompt unblock_prompt) = Inr response \<and>
             ((\<exists>err. response_text response = Inl err) \<or>
              (\<exists>t. response_text response = Inr t \<and>
                 ((\<exists>err. loads e t = Inl err) \<or> loads e t = Inr unblock_fallback))))))) \<and>
   (fst (generate_verification_challenge cfg e self) = Returned challenge_fallback \<longrightarrow>
      verification_model self = None \<or>
      (\<exists>vm. verification_model self = Some vm \<and>
         ((\<exists>err. generate_content_async e vm (Prompt challenge_prompt) = Inl err) \<or>
          (\<exists>response.
             generate_content_async e vm (Prompt challenge_prompt) = Inr response \<and>
             ((\<exists>err. response_text response = Inl err) \<or>
              (\<exists>t. response_text response = Inr t \<and>
                 (t = [] \<or> (\<exists>err. loads e (clean_text t) = Inl err) \<or>
                  (\<exists>data. loads e (clean_text t) = Inr data \<and>
                     (build_challenge e data = Inr challenge_fallback \<or>
                      \<not> usable_challenge data)))))))))"
proof -
  have flag:
    "\<forall>b. generate_unblock_question (cfg\<lparr>ENABLE_AI_FILTER := b\<rparr>) e self =
          generate_unblock_question cfg e self \<and>
        generate_verification_challenge (cfg\<lparr>ENABLE_AI_FILTER := b\<rparr>) e self =
          generate_verification_challenge cfg e self \<and>
        GeminiService_init (cfg\<lparr>ENABLE_AI_FILTER := b\<rparr>) = GeminiService_init cfg"
    by (simp add: generate_unblock_question_def generate_verification_challenge_def
        GeminiService_init_def)
  have calls:
    "GEMINI_API_KEY cfg \<noteq> None \<and> GEMINI_API_KEY cfg \<noteq> Some [] \<and> \<not> ENABLE_AI_FILTER cfg \<longrightarrow>
      snd (generate_unblock_question cfg e (GeminiService_init cfg)) =
        [(GenerativeModel (ascii ''gemini-2.5-flash-lite''), Prompt unblock_prompt)] \<and>
      snd (generate_verification_challenge cfg e (GeminiService_init cfg)) =
        [(GenerativeModel (ascii ''gemini-2.5-flash-lite''), Prompt challenge_prompt)] \<and>
      snd (analyze_message cfg e (GeminiService_init cfg) msg image_bytes) = []"
    by (simp add: generate_unblock_question_def generate_verification_challenge_def
        GeminiService_init_def analyze_message_def)
  have unblock_parsed: "fst (generate_unblock_question cfg e self) = Returned v"
    if "verification_model self = Some vm"
      and "generate_content_async e vm (Prompt unblock_prompt) = Inr response"
      and "response_text response = Inr t" and "loads e t = Inr v"
    for vm response t v
    using that by (simp add: generate_unblock_question_def)
  have challenge_parsed:
    "fst (generate_verification_challenge cfg e self) =
       Returned (JObject [(ascii ''question'', q), (ascii ''correct_answer'', c),
                          (ascii ''options'', JArray (shuffle (draws e) (xs @ [c])))])"
    if "verification_model self = Some vm"
      and "generate_content_async e vm (Prompt challenge_prompt) = Inr response"
      and "response_text response = Inr t" and "t \<noteq> []"
      and "loads e (clean_text t) = Inr (JObject kvs)"
      and "map_of kvs (ascii ''question'') = Some q"
      and "map_of kvs (ascii ''correct_answer'') = Some c"
      and "map_of kvs (ascii ''incorrect_answers'') = Some (JArray xs)"
    for vm response t kvs q c xs
    using that
    by (simp add: generate_verification_challenge_def challenge_reply_def
        build_challenge_usable)
  have unblock_only:
    "verification_model self = None \<or>
      (\<exists>vm. verification_model self = Some vm \<and>
         ((\<exists>err. generate_content_async e vm (Prompt unblock_prompt) = Inl err) \<or>
          (\<exists>response.
             generate_content_async e vm (Prompt unblock_prompt) = Inr response \<and>
             ((\<exists>err. response_text response = Inl err) \<or>
              (\<exists>t. response_text response = Inr t \<and>
                 ((\<exists>err. loads e t = Inl err) \<or> loads e t = Inr unblock_fallback))))))"
    if "fst (generate_unblock_question cfg e self) = Returned unblock_fallback"
    using that
    by (auto simp: generate_unblock_question_def split: option.splits sum.splits)
  have challenge_only:
    "verification_model self = None \<or>
      (\<exists>vm. verification_model self = Some vm \<and>
         ((\<exists>err. generate_content_async e vm (Prompt challenge_prompt) = Inl err) \<or>
          (\<exists>response.
             generate_content_async e vm (Prompt challenge_prompt) = Inr response \<and>
             ((\<exists>err. response_text response = Inl err) \<or>
              (\<exists>t. response_text response = Inr t \<and>
                 (t = [] \<or> (\<exists>err. loads e (clean_text t) = Inl err) \<or>
                  (\<exists>data. loads e (clean_text t) = Inr data \<and>
                     (build_challenge e data = Inr challenge_fallback \<or>
                      \<not> usable_challenge data))))))))"
    if returned: "fst (generate_verification_challenge cfg e self) = Returned challenge_fallback"
  proof (cases "verification_model self")
    case None
    then show ?thesis by simp
  next
    case (Some vm)
    show ?thesis
    proof (cases "generate_content_async e vm (Prompt challenge_prompt)")
      case (Inl err)
      with Some show ?thesis by simp
    next
      case (Inr response)
      show ?thesis
      proof (cases "response_text response")
        case (Inl err)
        with Some Inr show ?thesis by simp
      next
        case accessor: (Inr t)
        show ?thesis
        proof (cases "t = []")
          case True
          with Some Inr accessor show ?thesis by simp
        next
          case nonempty: False
          show ?thesis
          proof (cases "loads e (clean_text t)")
            case (Inl err)
            with Some Inr accessor show ?thesis by simp
          next
            case parsed: (Inr data)
            show ?thesis
            proof (cases "usable_challenge data")
              case False
              with Some Inr accessor parsed show ?thesis by simp
            next
              case True
              then obtain v where v: "build_challenge e data = Inr v"
                using usable_challenge_builds by blast
              with Some Inr accessor nonempty parsed have
                "fst (generate_verification_challenge cfg e self) = Returned v"
                by (simp add: generate_verification_challenge_def challenge_reply_def)
              with returned have "v = challenge_fallback" by simp
              with v Some Inr accessor parsed show ?thesis by simp
            qed
          qed
        qed
      qed
    qed
  qed
  from flag calls unblock_parsed challenge_parsed unblock_only challenge_only
  show ?thesis by blast
qed

theorem generators_ignore_filter_flag_witness:
  "snd (generate_unblock_question (configured\<lparr>ENABLE_AI_FILTER := False\<rparr>)
          (replying (Inr (reply (Inr unblock_text))))
          (GeminiService_init (configured\<lparr>ENABLE_AI_FILTER := False\<rparr>))) =
     [(GenerativeModel (ascii ''gemini-2.5-flash-lite''), Prompt unblock_prompt)] \<and>
   snd (generate_verification_challenge (configured\<lparr>ENABLE_AI_FILTER := False\<rparr>)
          (replying (Inr (reply (Inr (challenge_text three_distractors)))))
          (GeminiService_init (configured\<lparr>ENABLE_AI_FILTER := False\<rparr>))) =
     [(GenerativeModel (ascii ''gemini-2.5-flash-lite''), Prompt challenge_prompt)] \<and>
   snd (analyze_message (configured\<lparr>ENABLE_AI_FILTER := False\<rparr>)
          (replying (Inr (reply (Inr unblock_text))))
          (GeminiService_init (configured\<lparr>ENABLE_AI_FILTER := False\<rparr>))
          sample_message None) = [] \<and>
   fst (generate_unblock_question (configured\<lparr>ENABLE_AI_FILTER := False\<rparr>)
          (replying (Inr (reply (Inr unblock_text))))
          (GeminiService_init (configured\<lparr>ENABLE_AI_FILTER := False\<rparr>))) =
     Returned (JObject [(ascii ''question'', JString (ascii ''2+2?'')),
                        (ascii ''answer'', JString [52])]) \<and>
   fst (generate_verification_challenge (configured\<lparr>ENABLE_AI_FILTER := False\<rparr>)
          (replying (Inr (reply (Inr (challenge_text three_distractors)))))
          (GeminiService_init (configured\<lparr>ENABLE_AI_FILTER := False\<rparr>))) =
     Returned (JObject [(ascii ''question'', JString [81]),
                        (ascii ''correct_answer'', JString [65]),
                        (ascii ''options'',
                         JArray [JString [67], JString [68], JString [65], JString [66]])])"
proof -
  let ?off = "configured\<lparr>ENABLE_AI_FILTER := False\<rparr>"
  let ?vm = "GenerativeModel (ascii ''gemini-2.5-flash-lite'')"
  let ?u = "replying (Inr (reply (Inr unblock_text)))"
  let ?c = "replying (Inr (reply (Inr (challenge_text three_distractors))))"
  have vm: "verification_model (GeminiService_init ?off) = Some ?vm"
    by (simp add: GeminiService_init_def configured_def ascii_def)
  have key: "GEMINI_API_KEY ?off \<noteq> None \<and> GEMINI_API_KEY ?off \<noteq> Some [] \<and>
             \<not> ENABLE_AI_FILTER ?off"
    by (simp add: configured_def ascii_def)
  note u = generators_ignore_filter_flag [of ?off ?u "GeminiService_init ?off"
      sample_message None]
  note c = generators_ignore_filter_flag [of ?off ?c "GeminiService_init ?off"
      sample_message None]
  from u key have calls_u:
    "snd (generate_unblock_question ?off ?u (GeminiService_init ?off)) =
       [(?vm, Prompt unblock_prompt)]"
    and calls_a: "snd (analyze_message ?off ?u (GeminiService_init ?off) sample_message None) = []"
    by blast+
  from c key have calls_c:
    "snd (generate_verification_challenge ?off ?c (GeminiService_init ?off)) =
       [(?vm, Prompt challenge_prompt)]"
    by blast
  have gen_u: "generate_content_async ?u ?vm (Prompt unblock_prompt) =
               Inr (reply (Inr unblock_text))"
    and acc_u: "response_text (reply (Inr unblock_text)) = Inr unblock_text"
    and loads_u: "loads ?u unblock_text =
       Inr (JObject [(ascii ''question'', JString (ascii ''2+2?'')),
                     (ascii ''answer'', JString [52])])"
    by (simp_all add: replying_simps reply_simps loads_unblock_text)
  from u vm gen_u acc_u loads_u have result_u:
    "fst (generate_unblock_question ?off ?u (GeminiService_init ?off)) =
       Returned (JObject [(ascii ''question'', JString (ascii ''2+2?'')),
                          (ascii ''answer'', JString [52])])"
    by blast
  have gen_c: "generate_content_async ?c ?vm (Prompt challenge_prompt) =
               Inr (reply (Inr (challenge_text three_distractors)))"
    and acc_c: "response_text (reply (Inr (challenge_text three_distractors))) =
                Inr (challenge_text three_distractors)"
    and loads_c: "loads ?c (clean_text (challenge_text three_distractors)) =
       Inr (JObject
             [(ascii ''question'', JString [81]), (ascii ''correct_answer'', JString [65]),
              (ascii ''incorrect_answers'',
               JArray [JString [66], JString [67], JString [68]])])"
    by (simp_all add: replying_simps reply_simps loads_three_distractors)
  have nonempty: "challenge_text three_distractors \<noteq> []"
    by (simp add: challenge_text_def)
  have keys:
    "map_of [(ascii ''question'', JString [81]), (ascii ''correct_answer'', JString [65]),
             (ascii ''incorrect_answers'', JArray [JString [66], JString [67], JString [68]])]
       (ascii ''question'') = Some (JString [81])"
    "map_of [(ascii ''question'', JString [81]), (ascii ''correct_answer'', JString [65]),
             (ascii ''incorrect_answers'', JArray [JString [66], JString [67], JString [68]])]
       (ascii ''correct_answer'') = Some (JString [65])"
    "map_of [(ascii ''question'', JString [81]), (ascii ''correct_answer'', JString [65]),
             (ascii ''incorrect_answers'', JArray [JString [66], JString [67], JString [68]])]
       (ascii ''incorrect_answers'') = Some (JArray [JString [66], JString [67], JString [68]])"
    by (simp_all add: challenge_keys_differ challenge_keys_differ [symmetric])
  from c vm gen_c acc_c nonempty loads_c keys have
    "fst (generate_verification_challenge ?off ?c (GeminiService_init ?off)) =
       Returned (JObject [(ascii ''question'', JString [81]),
                          (ascii ''correct_answer'', JString [65]),
                          (ascii ''options'',
                           JArray (shuffle (draws ?c)
                                     ([JString [66], JString [67], JString [68]] @
                                      [JString [65]])))])"
    by blast
  moreover have "shuffle (draws ?c) ([JString [66], JString [67], JString [68]] @ [JString [65]]) =
                 [JString [67], JString [68], JString [65], JString [66]]"
    unfolding replying_simps by code_simp
  ultimately have result_c:
    "fst (generate_verification_challenge ?off ?c (GeminiService_init ?off)) =
       Returned (JObject [(ascii ''question'', JString [81]),
                          (ascii ''correct_answer'', JString [65]),
                          (ascii ''options'',
                           JArray [JString [67], JString [68], JString [65], JString [66]])])"
    by simp
  from calls_u calls_c calls_a result_u result_c show ?thesis by blast
qed

end
